theory Spec2Isabelle
  imports Main "HOL-Library.Multiset"
begin

section \<open>The signing worker: a shallow embedding of \<^verbatim>\<open>signingworker/worker.py\<close>\<close>

text \<open>
  The worker is one class, \<^verbatim>\<open>SigningConsumer\<close>, whose methods talk to a message broker,
  the task-tracking service, HTTP servers, the file system and an external signing tool.
  The embedding keeps the methods and their names. Everything outside the process is a
  field of the record \<open>world\<close>: a function from the history of side effects so far (and the
  call's arguments) to the call's result, so that the same call may answer differently
  later on. Every call made to the outside is appended to the \<open>trace\<close> of the state, whether
  it succeeds or not. Exceptions are values of the type \<open>exn\<close>; a method returns
  \<open>Inl e\<close> where the Python raises \<open>e\<close>.
\<close>

subsection \<open>JSON values and the Python operations on them\<close>

text \<open>
  Message bodies, task definitions and manifests are decoded JSON. Numbers are integers
  here: the code never computes with a number it reads.
\<close>

datatype json =
    JNull
  | JBool bool
  | JNum int
  | JStr string
  | JArr "json list"
  | JObj "(string \<times> json) list"

text \<open>
  The exception classes the code names, the ones Python raises on a bad subscript, and
  \<open>OtherError\<close> for any other subclass of \<open>Exception\<close> a library call may raise. The three
  classes of \<^verbatim>\<open>signingworker.exceptions\<close> are unrelated subclasses of \<open>Exception\<close>.
\<close>

datatype exn =
    TaskclusterRestFailure int
  | TaskVerificationError
  | ValidationError
  | ChecksumMismatchError json string string
  | SigningServerError string
  | HTTPError nat
  | KeyError json
  | IndexError
  | TypeError
  | AttributeError
  | OtherError string

text \<open>\<^verbatim>\<open>v[k]\<close> for a string key \<open>k\<close>.\<close>

fun getitem :: "json \<Rightarrow> string \<Rightarrow> exn + json" where
  "getitem (JObj al) k = (case map_of al k of None \<Rightarrow> Inl (KeyError (JStr k)) | Some v \<Rightarrow> Inr v)"
| "getitem _ k = Inl TypeError"

text \<open>\<^verbatim>\<open>v[-1]\<close>. The keys of a decoded JSON object are strings, so \<open>-1\<close> is never one.\<close>

fun getitem_last :: "json \<Rightarrow> exn + json" where
  "getitem_last (JArr xs) = (if xs = [] then Inl IndexError else Inr (last xs))"
| "getitem_last (JStr s) = (if s = [] then Inl IndexError else Inr (JStr [last s]))"
| "getitem_last (JObj al) = Inl (KeyError (JNum (- 1)))"
| "getitem_last _ = Inl TypeError"

fun dict_set :: "string \<Rightarrow> json \<Rightarrow> (string \<times> json) list \<Rightarrow> (string \<times> json) list" where
  "dict_set k v [] = [(k, v)]"
| "dict_set k v (p # al) = (if fst p = k then (k, v) # al else p # dict_set k v al)"

text \<open>\<^verbatim>\<open>v[k] = x\<close> for a string key \<open>k\<close>.\<close>

fun setitem :: "json \<Rightarrow> string \<Rightarrow> json \<Rightarrow> exn + json" where
  "setitem (JObj al) k x = Inr (JObj (dict_set k x al))"
| "setitem _ k x = Inl TypeError"

text \<open>\<^verbatim>\<open>for e in v\<close>: the elements of a list, the keys of a dict, the characters of a string.\<close>

fun iter_json :: "json \<Rightarrow> exn + json list" where
  "iter_json (JArr xs) = Inr xs"
| "iter_json (JObj al) = Inr (map (\<lambda>p. JStr (fst p)) al)"
| "iter_json (JStr s) = Inr (map (\<lambda>c. JStr [c]) s)"
| "iter_json _ = Inl TypeError"

subsection \<open>Strings and paths\<close>

text \<open>\<^verbatim>\<open>s.split(c)\<close>: never empty, \<^verbatim>\<open>"".split("/") == [""]\<close>.\<close>

fun split_on :: "char \<Rightarrow> string \<Rightarrow> string list" where
  "split_on c [] = [[]]"
| "split_on c (x # xs) =
     (if x = c then [] # split_on c xs
      else (case split_on c xs of [] \<Rightarrow> [[x]] | w # ws \<Rightarrow> (x # w) # ws))"

text \<open>\<^verbatim>\<open>sep.join(xs)\<close>.\<close>

fun join_with :: "string \<Rightarrow> string list \<Rightarrow> string" where
  "join_with sep [] = []"
| "join_with sep [x] = x"
| "join_with sep (x # y # ys) = x @ sep @ join_with sep (y # ys)"

text \<open>\<^verbatim>\<open>os.path.join(a, b)\<close> on POSIX.\<close>

definition path_join :: "string \<Rightarrow> string \<Rightarrow> string" where
  "path_join a b =
     (if b \<noteq> [] \<and> hd b = CHR ''/'' then b
      else if a = [] \<or> last a = CHR ''/'' then a @ b
      else a @ ''/'' @ b)"

text \<open>Sequencing of computations that may raise and have no side effect.\<close>

definition bind_sum :: "exn + 'a \<Rightarrow> ('a \<Rightarrow> exn + 'b) \<Rightarrow> exn + 'b" where
  "bind_sum r f = (case r of Inl e \<Rightarrow> Inl e | Inr x \<Rightarrow> f x)"

subsection \<open>Side effects, the world and the state\<close>

datatype event =
    EClaimTask json json string string
  | ETask json
  | EValidateTask json
  | EReportCompleted json json
  | EReportException json json string
  | ECreateArtifact json json string string string
  | EPutFile string json string
  | EHttpGet json
  | ETokenRequest string
  | EMkdtemp
  | EMkstemp
  | EWriteFile string string
  | EJsonDump string json
  | ERmTree string
  | EShuffle
  | ESigntool "string list" string
  | EAck

record response =
  status_code :: nat
  content :: string
  json_body :: "exn + json"

text \<open>
  The collaborators. \<open>validate_task\<close> and \<open>get_hash\<close> are functions of this repository
  whose modules (\<^verbatim>\<open>signingworker.task\<close>, \<^verbatim>\<open>signingworker.utils\<close>) are not part of the
  sources at hand, and \<open>my_ip\<close> is a constant of the latter; the rest are library calls.
  \<open>random_below h i\<close> is the random number drawn for position \<open>i\<close> of a shuffle.
\<close>

record world =
  tc_claimTask :: "event list \<Rightarrow> json \<Rightarrow> json \<Rightarrow> string \<Rightarrow> string \<Rightarrow> exn + unit"
  tc_task :: "event list \<Rightarrow> json \<Rightarrow> exn + json"
  tc_reportCompleted :: "event list \<Rightarrow> json \<Rightarrow> json \<Rightarrow> exn + unit"
  tc_reportException :: "event list \<Rightarrow> json \<Rightarrow> json \<Rightarrow> string \<Rightarrow> exn + unit"
  tc_createArtifact :: "event list \<Rightarrow> json \<Rightarrow> json \<Rightarrow> string \<Rightarrow> string \<Rightarrow> string \<Rightarrow> exn + json"
  tc_putFile :: "event list \<Rightarrow> string \<Rightarrow> json \<Rightarrow> string \<Rightarrow> exn + unit"
  validate_task :: "json \<Rightarrow> string list \<Rightarrow> exn + unit"
  requests_get :: "event list \<Rightarrow> json \<Rightarrow> exn + response"
  requests_post :: "event list \<Rightarrow> string \<Rightarrow> string \<Rightarrow> nat \<Rightarrow> string list \<Rightarrow> exn + response"
  mkdtemp :: "event list \<Rightarrow> exn + string"
  mkstemp :: "event list \<Rightarrow> exn + string"
  write_file :: "event list \<Rightarrow> string \<Rightarrow> string \<Rightarrow> exn + unit"
  json_dump :: "event list \<Rightarrow> string \<Rightarrow> json \<Rightarrow> exn + unit"
  rmtree :: "event list \<Rightarrow> string \<Rightarrow> exn + unit"
  get_hash :: "event list \<Rightarrow> string \<Rightarrow> exn + string"
  getsize :: "event list \<Rightarrow> string \<Rightarrow> exn + int"
  sh_python :: "event list \<Rightarrow> string list \<Rightarrow> string \<Rightarrow> exn + unit"
  random_below :: "event list \<Rightarrow> nat \<Rightarrow> nat"
  now_plus_2_weeks :: "event list \<Rightarrow> string"
  urlsplit_path :: "string \<Rightarrow> string"
  py_str :: "json \<Rightarrow> string"
  my_ip :: string

text \<open>
  The attributes \<^verbatim>\<open>__init__\<close> sets on \<^verbatim>\<open>self\<close>, and the trace. The broker connection, the
  exchange and the task-tracking client are handles to the outside; the state keeps what
  they were made from.
\<close>

record state =
  trace :: "event list"
  connection :: string
  exchange :: string
  queue_name :: string
  worker_type :: string
  routing_key :: string
  taskcluster_config :: string
  signing_servers :: "string list"
  signing_formats :: "string list"
  signing_server_auth :: "string list"
  supported_signing_scopes :: "string list"
  tools_checkout :: string
  cert :: string

definition init :: "string \<Rightarrow> string \<Rightarrow> string \<Rightarrow> string \<Rightarrow> string \<Rightarrow> string list \<Rightarrow>
    string list \<Rightarrow> string list \<Rightarrow> string \<Rightarrow> state" where
  "init connection' exchange' queue_name' worker_type' taskcluster_config' signing_servers'
        signing_server_auth' supported_signing_scopes' tools_checkout' =
     \<lparr> trace = [],
       connection = connection',
       exchange = exchange',
       queue_name = queue_name',
       worker_type = worker_type',
       routing_key = ''*.*.*.*.*.*.'' @ worker_type' @ ''.#'',
       taskcluster_config = taskcluster_config',
       signing_servers = signing_servers',
       signing_formats = [''mar'', ''gpg''],
       signing_server_auth = signing_server_auth',
       supported_signing_scopes = supported_signing_scopes',
       tools_checkout = tools_checkout',
       cert = path_join tools_checkout' ''release/signing/host.cert'' \<rparr>"

subsection \<open>Sequencing\<close>

type_synonym 'a prog = "state \<Rightarrow> (exn + 'a) \<times> state"

definition returnM :: "'a \<Rightarrow> 'a prog" where
  "returnM x = (\<lambda>s. (Inr x, s))"

definition raiseM :: "exn \<Rightarrow> 'a prog" where
  "raiseM e = (\<lambda>s. (Inl e, s))"

text \<open>A computation without side effect that may raise.\<close>

definition liftE :: "exn + 'a \<Rightarrow> 'a prog" where
  "liftE r = (\<lambda>s. (r, s))"

text \<open>Statement sequencing: an exception of the first statement skips the rest.\<close>

definition bindM :: "'a prog \<Rightarrow> ('a \<Rightarrow> 'b prog) \<Rightarrow> 'b prog" where
  "bindM m f = (\<lambda>s. case m s of (Inl e, s') \<Rightarrow> (Inl e, s') | (Inr x, s') \<Rightarrow> f x s')"

text \<open>A call to the outside: the world answers from the history, the call is recorded.\<close>

definition effect :: "event \<Rightarrow> (event list \<Rightarrow> exn + 'a) \<Rightarrow> 'a prog" where
  "effect ev f = (\<lambda>s. (f (trace s), s\<lparr>trace := trace s @ [ev]\<rparr>))"

text \<open>A statement that reads attributes of \<^verbatim>\<open>self\<close>.\<close>

definition with_self :: "(state \<Rightarrow> 'a prog) \<Rightarrow> 'a prog" where
  "with_self f = (\<lambda>s. f s s)"

text \<open>A read of the outside that leaves no record.\<close>

definition observe :: "(event list \<Rightarrow> exn + 'a) \<Rightarrow> 'a prog" where
  "observe f = (\<lambda>s. (f (trace s), s))"

text \<open>\<^verbatim>\<open>r.raise_for_status()\<close>: a 4xx or 5xx status raises.\<close>

definition raise_for_status :: "response \<Rightarrow> exn + unit" where
  "raise_for_status r =
     (if 400 \<le> status_code r \<and> status_code r < 600 then Inl (HTTPError (status_code r))
      else Inr ())"

subsection \<open>\<^verbatim>\<open>redo.retriable\<close>\<close>

text \<open>
  \<^verbatim>\<open>redo.retry\<close> runs the action in a loop of \<open>attempts\<close> rounds, counting them in \<open>n\<close> from
  1. A round that returns ends the loop with its value; a round that raises any
  \<open>Exception\<close> is followed by the next one, unless \<open>n = attempts\<close>, where the exception is
  re-raised. A loop that ends without a return gives \<open>None\<close>. The sleep between two rounds
  is not modelled.
\<close>

fun retry_rounds :: "nat \<Rightarrow> nat \<Rightarrow> nat \<Rightarrow> 'a \<Rightarrow> 'a prog \<Rightarrow> 'a prog" where
  "retry_rounds 0 n attempts none action = returnM none"
| "retry_rounds (Suc k) n attempts none action =
     (\<lambda>s. case action s of
        (Inr x, s') \<Rightarrow> (Inr x, s')
      | (Inl e, s') \<Rightarrow> if n = attempts then (Inl e, s')
                      else retry_rounds k (n + 1) attempts none action s')"

definition retriable :: "nat \<Rightarrow> 'a \<Rightarrow> 'a prog \<Rightarrow> 'a prog" where
  "retriable attempts none action = retry_rounds attempts 1 attempts none action"

subsection \<open>\<^verbatim>\<open>random.shuffle\<close>\<close>

text \<open>
  The library's loop: for \<open>i\<close> from \<open>len(x) - 1\<close> down to 1, draw \<open>j\<close> in \<open>0..i\<close> and exchange
  \<open>x[i]\<close> and \<open>x[j]\<close>. The draw \<^verbatim>\<open>int(random() * (i+1))\<close> is \<open>r i mod (i + 1)\<close> for a source
  \<open>r\<close> of numbers.
\<close>

primrec shuffle_loop :: "(nat \<Rightarrow> nat) \<Rightarrow> nat \<Rightarrow> 'a list \<Rightarrow> 'a list" where
  "shuffle_loop r 0 xs = xs"
| "shuffle_loop r (Suc k) xs =
     (let i = Suc k; j = r i mod (i + 1)
      in shuffle_loop r k (xs[i := xs ! j, j := xs ! i]))"

definition random_shuffle :: "(nat \<Rightarrow> nat) \<Rightarrow> 'a list \<Rightarrow> 'a list" where
  "random_shuffle r xs = shuffle_loop r (length xs - 1) xs"

subsection \<open>The methods of \<^verbatim>\<open>SigningConsumer\<close>\<close>

text \<open>\<^verbatim>\<open>random.shuffle(self.signing_servers)\<close> shuffles the list object in place.\<close>

definition shuffle_servers :: "world \<Rightarrow> unit prog" where
  "shuffle_servers w =
     (\<lambda>s. (Inr (), s\<lparr>signing_servers :=
                        random_shuffle (random_below w (trace s)) (signing_servers s),
                      trace := trace s @ [EShuffle]\<rparr>))"

text \<open>The \<^verbatim>\<open>for server in self.signing_servers\<close> loop of \<^verbatim>\<open>get_token\<close>, with its \<^verbatim>\<open>break\<close>.\<close>

primrec token_loop :: "world \<Rightarrow> string list \<Rightarrow> string list \<Rightarrow> string option prog" where
  "token_loop w auth [] = returnM None"
| "token_loop w auth (server # rest) =
     bindM (effect (ETokenRequest server)
              (\<lambda>h. requests_post w h (''https://'' @ server @ ''/token'') (my_ip w) (5 * 60) auth))
       (\<lambda>r. bindM (liftE (raise_for_status r))
         (\<lambda>_. if content r \<noteq> [] then returnM (Some (content r))
               else token_loop w auth rest))"

text \<open>The body of \<^verbatim>\<open>get_token\<close>: one pass over the servers.\<close>

definition get_token_once :: "world \<Rightarrow> string \<Rightarrow> unit prog" where
  "get_token_once w output_file =
     bindM (shuffle_servers w) (\<lambda>_.
     with_self (\<lambda>self.
     bindM (token_loop w (signing_server_auth self) (signing_servers self)) (\<lambda>token.
       case token of
         None \<Rightarrow> raiseM (SigningServerError ''Cannot retrieve signing token'')
       | Some t \<Rightarrow>
           if t = [] then raiseM (SigningServerError ''Cannot retrieve signing token'')
           else effect (EWriteFile output_file t) (\<lambda>h. write_file w h output_file t))))"

definition get_token :: "world \<Rightarrow> string \<Rightarrow> unit prog" where
  "get_token w output_file = retriable 10 () (get_token_once w output_file)"

definition get_manifest :: "world \<Rightarrow> json \<Rightarrow> json prog" where
  "get_manifest w url =
     retriable 10 JNull
       (bindM (effect (EHttpGet url) (\<lambda>h. requests_get w h url))
         (\<lambda>r. bindM (liftE (raise_for_status r))
           (\<lambda>_. liftE (json_body r))))"

definition sign_file :: "world \<Rightarrow> string \<Rightarrow> string \<Rightarrow> string option \<Rightarrow> unit prog" where
  "sign_file w work_dir from_name to_opt =
     (let to_name = (case to_opt of None \<Rightarrow> from_name | Some t \<Rightarrow> t);
          token = path_join work_dir ''token'';
          nonce = path_join work_dir ''nonce''
      in bindM (get_token w token) (\<lambda>_.
         with_self (\<lambda>self.
           let signtool = path_join (tools_checkout self) ''release/signing/signtool.py'';
               cmd = [signtool, ''-n'', nonce, ''-t'', token, ''-c'', cert self]
                     @ concat (map (\<lambda>x. [''-H'', x]) (signing_servers self))
                     @ concat (map (\<lambda>f. [''-f'', f]) (signing_formats self))
                     @ [''-o'', to_name, from_name]
           in effect (ESigntool cmd work_dir) (\<lambda>h. sh_python w h cmd work_dir))))"

definition create_artifact ::
    "world \<Rightarrow> json \<Rightarrow> json \<Rightarrow> string \<Rightarrow> string \<Rightarrow> string option \<Rightarrow> unit prog" where
  "create_artifact w task_id run_id dest abs_filename content_type_opt =
     (let content_type =
            (case content_type_opt of None \<Rightarrow> ''application/octet-stream'' | Some c \<Rightarrow> c)
      in bindM (observe (\<lambda>h. Inr (now_plus_2_weeks w h))) (\<lambda>expires.
         bindM (effect (ECreateArtifact task_id run_id dest content_type expires)
                  (\<lambda>h. tc_createArtifact w h task_id run_id dest content_type expires)) (\<lambda>res.
         bindM (liftE (getitem res ''putUrl'')) (\<lambda>put_url.
         effect (EPutFile abs_filename put_url content_type)
           (\<lambda>h. tc_putFile w h abs_filename put_url content_type)))))"

definition download_and_sign_file ::
    "world \<Rightarrow> json \<Rightarrow> json \<Rightarrow> string \<Rightarrow> json \<Rightarrow> string prog" where
  "download_and_sign_file w task_id run_id url checksum =
     bindM (effect EMkdtemp (mkdtemp w)) (\<lambda>work_dir.
       let filename = last (split_on CHR ''/'' (urlsplit_path w url));
           abs_filename = path_join work_dir filename
       in
       bindM (effect (EHttpGet (JStr url)) (\<lambda>h. requests_get w h (JStr url))) (\<lambda>r.
       bindM (liftE (raise_for_status r)) (\<lambda>_.
       bindM (effect (EWriteFile abs_filename (content r))
                (\<lambda>h. write_file w h abs_filename (content r))) (\<lambda>_.
       bindM (observe (\<lambda>h. get_hash w h abs_filename)) (\<lambda>got_checksum.
       bindM (if JStr got_checksum \<noteq> checksum
              then bindM (effect (ERmTree work_dir) (\<lambda>h. rmtree w h work_dir))
                     (\<lambda>_. raiseM (ChecksumMismatchError checksum got_checksum url))
              else returnM ()) (\<lambda>_.
       bindM (sign_file w work_dir filename None) (\<lambda>_.
       bindM (create_artifact w task_id run_id (''public/env/'' @ filename) abs_filename None)
         (\<lambda>_.
       returnM abs_filename))))))))"

text \<open>\<^verbatim>\<open>"{}".format(v)\<close>: a string as it is, anything else as Python prints it.\<close>

definition format_value :: "world \<Rightarrow> json \<Rightarrow> string" where
  "format_value w v = (case v of JStr s \<Rightarrow> s | _ \<Rightarrow> py_str w v)"

text \<open>
  The \<^verbatim>\<open>for e in signing_manifest\<close> loop of \<^verbatim>\<open>sign\<close>. The entries are updated in place
  there; here the loop returns the updated entries.
\<close>

primrec sign_entries :: "world \<Rightarrow> json \<Rightarrow> json \<Rightarrow> string \<Rightarrow> json list \<Rightarrow> json list prog" where
  "sign_entries w task_id run_id url_prefix [] = returnM []"
| "sign_entries w task_id run_id url_prefix (e # es) =
     bindM (liftE (getitem e ''mar'')) (\<lambda>mar.
     bindM (liftE (getitem e ''hash'')) (\<lambda>checksum.
     bindM (download_and_sign_file w task_id run_id
              (url_prefix @ ''/'' @ format_value w mar) checksum) (\<lambda>abs_filename.
     bindM (observe (\<lambda>h. get_hash w h abs_filename)) (\<lambda>new_hash.
     bindM (liftE (setitem e ''hash'' (JStr new_hash))) (\<lambda>e1.
     bindM (observe (\<lambda>h. getsize w h abs_filename)) (\<lambda>new_size.
     bindM (liftE (setitem e1 ''size'' (JNum new_size))) (\<lambda>e2.
     bindM (sign_entries w task_id run_id url_prefix es) (\<lambda>es'.
     returnM (e2 # es')))))))))"

definition sign :: "world \<Rightarrow> json \<Rightarrow> json \<Rightarrow> json \<Rightarrow> unit prog" where
  "sign w task_id run_id task =
     bindM (liftE (getitem task ''payload'')) (\<lambda>payload.
     bindM (liftE (getitem payload ''signingManifest'')) (\<lambda>manifest_url.
     bindM (get_manifest w manifest_url) (\<lambda>signing_manifest.
     bindM (liftE (case manifest_url of
                     JStr u \<Rightarrow> Inr (join_with ''/'' (butlast (split_on CHR ''/'' u)))
                   | _ \<Rightarrow> Inl AttributeError)) (\<lambda>url_prefix.
     bindM (liftE (iter_json signing_manifest)) (\<lambda>entries.
     bindM (sign_entries w task_id run_id url_prefix entries) (\<lambda>entries'.
       let signing_manifest' =
             (case signing_manifest of JArr _ \<Rightarrow> JArr entries' | _ \<Rightarrow> signing_manifest)
       in
     bindM (effect EMkstemp (mkstemp w)) (\<lambda>manifest_file.
     bindM (effect (EJsonDump manifest_file signing_manifest')
              (\<lambda>h. json_dump w h manifest_file signing_manifest')) (\<lambda>_.
     create_artifact w task_id run_id ''public/env/manifest.json'' manifest_file
       (Some ''application/json'')))))))))"

text \<open>The statements of the \<^verbatim>\<open>try\<close> block of \<^verbatim>\<open>process_message\<close> from the claim on.\<close>

definition claim_and_run :: "world \<Rightarrow> json \<Rightarrow> json \<Rightarrow> unit prog" where
  "claim_and_run w task_id run_id =
     with_self (\<lambda>self.
     bindM (effect (EClaimTask task_id run_id (worker_type self) (worker_type self))
              (\<lambda>h. tc_claimTask w h task_id run_id (worker_type self) (worker_type self))) (\<lambda>_.
     bindM (effect (ETask task_id) (\<lambda>h. tc_task w h task_id)) (\<lambda>task.
     bindM (liftE (getitem task ''taskGroupId'')) (\<lambda>task_graph_id.
     bindM (effect (EValidateTask task)
              (\<lambda>h. validate_task w task (supported_signing_scopes self))) (\<lambda>_.
     bindM (sign w task_id run_id task) (\<lambda>_.
     effect (EReportCompleted task_id run_id)
       (\<lambda>h. tc_reportCompleted w h task_id run_id)))))))"

text \<open>The \<^verbatim>\<open>except\<close> clauses, in their order.\<close>

fun handle_exception :: "world \<Rightarrow> json \<Rightarrow> json \<Rightarrow> exn \<Rightarrow> unit prog" where
  "handle_exception w task_id run_id (TaskclusterRestFailure status) =
     (if status = 409 then returnM () else raiseM (TaskclusterRestFailure status))"
| "handle_exception w task_id run_id TaskVerificationError =
     effect (EReportException task_id run_id ''malformed-payload'')
       (\<lambda>h. tc_reportException w h task_id run_id ''malformed-payload'')"
| "handle_exception w task_id run_id ValidationError =
     effect (EReportException task_id run_id ''malformed-payload'')
       (\<lambda>h. tc_reportException w h task_id run_id ''malformed-payload'')"
| "handle_exception w task_id run_id e = returnM ()"

definition message_ack :: "unit prog" where
  "message_ack = (\<lambda>s. (Inr (), s\<lparr>trace := trace s @ [EAck]\<rparr>))"

text \<open>
  \<^verbatim>\<open>task_id\<close> and \<^verbatim>\<open>run_id\<close> are \<^verbatim>\<open>None\<close> until the message body has given them; the
  handler sees them as they are when the exception is raised. \<open>body_task_id\<close> is
  \<^verbatim>\<open>body["status"]["taskId"]\<close> and \<open>body_run_id\<close> is \<^verbatim>\<open>body["status"]["runs"][-1]["runId"]\<close>.
\<close>

definition body_task_id :: "json \<Rightarrow> exn + json" where
  "body_task_id body = bind_sum (getitem body ''status'') (\<lambda>st. getitem st ''taskId'')"

definition body_run_id :: "json \<Rightarrow> exn + json" where
  "body_run_id body =
     bind_sum (getitem body ''status'') (\<lambda>st.
     bind_sum (getitem st ''runs'') (\<lambda>runs.
     bind_sum (getitem_last runs) (\<lambda>run. getitem run ''runId'')))"

text \<open>
  The \<^verbatim>\<open>try\<close> block: its result is \<open>Inl (e, task_id, run_id)\<close> when it raises \<open>e\<close>, with the
  two variables as they are then.
\<close>

definition try_block :: "world \<Rightarrow> json \<Rightarrow> state \<Rightarrow> ((exn \<times> json \<times> json) + unit) \<times> state" where
  "try_block w body =
     (case body_task_id body of
        Inl e \<Rightarrow> (\<lambda>s. (Inl (e, JNull, JNull), s))
      | Inr task_id \<Rightarrow>
          (case body_run_id body of
             Inl e \<Rightarrow> (\<lambda>s. (Inl (e, task_id, JNull), s))
           | Inr run_id \<Rightarrow>
               (\<lambda>s. case claim_and_run w task_id run_id s of
                       (Inl e, s') \<Rightarrow> (Inl (e, task_id, run_id), s')
                     | (Inr u, s') \<Rightarrow> (Inr u, s'))))"

text \<open>The whole method: the \<^verbatim>\<open>try\<close> block, the handlers, and \<^verbatim>\<open>message.ack()\<close> at the end.\<close>

definition process_message :: "world \<Rightarrow> json \<Rightarrow> unit prog" where
  "process_message w body =
     (\<lambda>s. case try_block w body s of
             (Inl (e, task_id, run_id), s') \<Rightarrow>
               bindM (handle_exception w task_id run_id e) (\<lambda>_. message_ack) s'
           | (Inr _, s') \<Rightarrow> message_ack s')"

section \<open>Statements about traces\<close>

text \<open>
  \<open>extends s evs s'\<close>: the state \<open>s'\<close> is \<open>s\<close> with the events \<open>evs\<close> appended to its trace and
  the signing servers in some order; every other attribute is as it was.
\<close>

definition extends :: "state \<Rightarrow> event list \<Rightarrow> state \<Rightarrow> bool" where
  "extends s evs s' \<longleftrightarrow>
     (\<exists>xs. s' = s\<lparr>trace := trace s @ evs, signing_servers := xs\<rparr>
           \<and> mset xs = mset (signing_servers s))"

text \<open>
  \<open>emits Q m\<close>: from every state, \<open>m\<close> extends the state by some events, and \<open>Q\<close> holds of
  its result and these events.
\<close>

definition emits :: "(exn + 'a \<Rightarrow> event list \<Rightarrow> bool) \<Rightarrow> 'a prog \<Rightarrow> bool" where
  "emits Q m \<longleftrightarrow> (\<forall>s. \<exists>evs. extends s evs (snd (m s)) \<and> Q (fst (m s)) evs)"

text \<open>\<open>only P m\<close>: every event \<open>m\<close> adds to the trace satisfies \<open>P\<close>.\<close>

definition only :: "(event \<Rightarrow> bool) \<Rightarrow> 'a prog \<Rightarrow> bool" where
  "only P m \<longleftrightarrow> emits (\<lambda>r evs. list_all P evs) m"

fun is_signtool :: "event \<Rightarrow> bool" where
  "is_signtool (ESigntool cmd d) = True"
| "is_signtool _ = False"

text \<open>Classes of events: what signing a file adds to the trace, and what an upload adds.\<close>

fun signing_event :: "event \<Rightarrow> bool" where
  "signing_event EShuffle = True"
| "signing_event (ETokenRequest server) = True"
| "signing_event (EWriteFile p c) = True"
| "signing_event (ESigntool cmd d) = True"
| "signing_event _ = False"

fun upload_event :: "event \<Rightarrow> bool" where
  "upload_event (ECreateArtifact t r d c e) = True"
| "upload_event (EPutFile f u c) = True"
| "upload_event _ = False"

text \<open>
  The phase of a task an event belongs to: the claim, the fetch of the task, its
  validation, the signing pipeline, the report to the task-tracking service, the
  acknowledgement.
\<close>

fun task_phase :: "event \<Rightarrow> nat" where
  "task_phase (EClaimTask t r g i) = 0"
| "task_phase (ETask t) = 1"
| "task_phase (EValidateTask t) = 2"
| "task_phase (EReportCompleted t r) = 4"
| "task_phase (EReportException t r x) = 4"
| "task_phase EAck = 5"
| "task_phase _ = 3"

definition pipeline_event :: "event \<Rightarrow> bool" where
  "pipeline_event e \<longleftrightarrow> task_phase e = 3"

text \<open>What the \<^verbatim>\<open>try\<close> block may add to the trace.\<close>

definition task_event :: "event \<Rightarrow> bool" where
  "task_event e \<longleftrightarrow> task_phase e \<le> 4 \<and> (\<forall>t r x. e \<noteq> EReportException t r x)"

text \<open>
  The answer to request number \<open>j\<close> of a pass over the servers \<open>xs\<close> that starts in state
  \<open>s\<close>, when the requests before it went out.
\<close>

definition token_answer :: "world \<Rightarrow> state \<Rightarrow> string list \<Rightarrow> nat \<Rightarrow> exn + response" where
  "token_answer w s xs j =
     requests_post w (trace s @ map ETokenRequest (take j xs))
       (''https://'' @ xs ! j @ ''/token'') (my_ip w) (5 * 60) (signing_server_auth s)"

text \<open>An answer with a good status and an empty body.\<close>

definition empty_answer :: "exn + response \<Rightarrow> bool" where
  "empty_answer a =
     (case a of Inl e \<Rightarrow> False | Inr r \<Rightarrow> raise_for_status r = Inr () \<and> content r = [])"

text \<open>The exception a request ends with: that of the transport, or that of a bad status.\<close>

definition answer_error :: "exn + response \<Rightarrow> exn option" where
  "answer_error a =
     (case a of Inl e \<Rightarrow> Some e
      | Inr r \<Rightarrow> (case raise_for_status r of Inl e \<Rightarrow> Some e | Inr u \<Rightarrow> None))"

text \<open>The state after \<open>i\<close> passes of \<^verbatim>\<open>get_token\<close>.\<close>

definition after_passes :: "world \<Rightarrow> string \<Rightarrow> nat \<Rightarrow> state \<Rightarrow> state" where
  "after_passes w out i s = ((\<lambda>s. snd (get_token_once w out s)) ^^ i) s"

fun is_token_request :: "event \<Rightarrow> bool" where
  "is_token_request (ETokenRequest server) = True"
| "is_token_request _ = False"

text \<open>The exception an answer of the outside is, if it is one.\<close>

definition failure_of :: "exn + 'a \<Rightarrow> exn option" where
  "failure_of a = (case a of Inl e \<Rightarrow> Some e | Inr x \<Rightarrow> None)"

text \<open>
  The failure with which the task-tracking service answers the call an event records,
  made after the history \<open>h\<close>; \<open>None\<close> when the call goes through, and for the events that
  are not calls to the task-tracking service.
\<close>

fun tc_failure :: "world \<Rightarrow> event list \<Rightarrow> event \<Rightarrow> exn option" where
  "tc_failure w h (EClaimTask t r g i) = failure_of (tc_claimTask w h t r g i)"
| "tc_failure w h (ETask t) = failure_of (tc_task w h t)"
| "tc_failure w h (EReportCompleted t r) = failure_of (tc_reportCompleted w h t r)"
| "tc_failure w h (ECreateArtifact t r d c e) = failure_of (tc_createArtifact w h t r d c e)"
| "tc_failure w h (EPutFile f u c) = failure_of (tc_putFile w h f u c)"
| "tc_failure w h _ = None"

text \<open>
  \<open>emits_from Q m\<close>: as \<open>emits\<close>, with the history \<open>m\<close> starts from as the first argument of
  \<open>Q\<close>.
\<close>

definition emits_from :: "(event list \<Rightarrow> exn + 'a \<Rightarrow> event list \<Rightarrow> bool) \<Rightarrow> 'a prog \<Rightarrow> bool" where
  "emits_from Q m \<longleftrightarrow> (\<forall>s. \<exists>evs. extends s evs (snd (m s)) \<and> Q (trace s) (fst (m s)) evs)"

text \<open>
  \<open>transparent w h r evs\<close>: among the events \<open>evs\<close>, added after the history \<open>h\<close> by a
  computation with the result \<open>r\<close>, a call that the task-tracking service answers with a
  failure is the last event, and the computation raises that failure.
\<close>

definition transparent :: "world \<Rightarrow> event list \<Rightarrow> exn + 'a \<Rightarrow> event list \<Rightarrow> bool" where
  "transparent w h r evs \<longleftrightarrow>
     (\<forall>pre ev post e. evs = pre @ ev # post \<and> tc_failure w (h @ pre) ev = Some e
        \<longrightarrow> post = [] \<and> r = Inl e)"

definition passes_failures :: "world \<Rightarrow> 'a prog \<Rightarrow> bool" where
  "passes_failures w m \<longleftrightarrow> emits_from (transparent w) m"

text \<open>
  What the handler makes of a failure of the task-tracking service with the status \<open>c\<close>,
  raised in the state \<open>s1\<close>.
\<close>

definition by_status :: "int \<Rightarrow> state \<Rightarrow> (exn + unit) \<times> state" where
  "by_status c s1 =
     (if c = 409 then (Inr (), s1\<lparr>trace := trace s1 @ [EAck]\<rparr>)
      else (Inl (TaskclusterRestFailure c), s1))"

section \<open>Example worlds\<close>

text \<open>
  A world in which every collaborator answers well, a message for task \<open>t\<close>, run 0, and a
  worker with three signing servers. The hash of a file changes once the signing tool
  has run.
\<close>

definition ok_response :: "string \<Rightarrow> json \<Rightarrow> response" where
  "ok_response c j = \<lparr> status_code = 200, content = c, json_body = Inr j \<rparr>"

definition manifest1 :: json where
  "manifest1 = JArr [JObj [(''mar'', JStr ''a.mar''), (''hash'', JStr ''h0''), (''size'', JNum 3)]]"

definition task1 :: json where
  "task1 = JObj [(''taskGroupId'', JStr ''g''),
                 (''payload'', JObj [(''signingManifest'', JStr ''http://h/m/manifest.json'')])]"

definition body1 :: json where
  "body1 = JObj [(''status'', JObj [(''taskId'', JStr ''t''),
                                    (''runs'', JArr [JObj [(''runId'', JNum 0)]])])]"

definition calm_world :: world where
  "calm_world = \<lparr>
     tc_claimTask = (\<lambda>h t r g i. Inr ()),
     tc_task = (\<lambda>h t. Inr task1),
     tc_reportCompleted = (\<lambda>h t r. Inr ()),
     tc_reportException = (\<lambda>h t r x. Inr ()),
     tc_createArtifact = (\<lambda>h t r d c e. Inr (JObj [(''putUrl'', JStr ''http://put'')])),
     tc_putFile = (\<lambda>h f u c. Inr ()),
     validate_task = (\<lambda>t scopes. Inr ()),
     requests_get = (\<lambda>h u. Inr (ok_response ''abc'' manifest1)),
     requests_post = (\<lambda>h u ip d a. Inr (ok_response ''tok'' JNull)),
     mkdtemp = (\<lambda>h. Inr ''/tmp/d''),
     mkstemp = (\<lambda>h. Inr ''/tmp/f''),
     write_file = (\<lambda>h p c. Inr ()),
     json_dump = (\<lambda>h p j. Inr ()),
     rmtree = (\<lambda>h p. Inr ()),
     get_hash = (\<lambda>h p. Inr (if list_ex is_signtool h then ''h1'' else ''h0'')),
     getsize = (\<lambda>h p. Inr 5),
     sh_python = (\<lambda>h c d. Inr ()),
     random_below = (\<lambda>h i. 0),
     now_plus_2_weeks = (\<lambda>h. ''later''),
     urlsplit_path = (\<lambda>u. u),
     py_str = (\<lambda>j. ''?''),
     my_ip = ''10.0.0.1'' \<rparr>"

definition state1 :: state where
  "state1 = init ''amqp://b'' ''exchange/q'' ''q'' ''signing-worker-v1'' ''creds''
       [''s1'', ''s2'', ''s3''] [''user'', ''pass'']
       [''project:releng:signing:cert:dep-signing''] ''/tools''"

text \<open>The task is already claimed by another worker.\<close>

definition conflict_world :: world where
  "conflict_world = calm_world\<lparr>tc_claimTask := (\<lambda>h t r g i. Inl (TaskclusterRestFailure 409))\<rparr>"

text \<open>The task-tracking service is down: the claim call answers with HTTP 500.\<close>

definition outage_world :: world where
  "outage_world = calm_world\<lparr>tc_claimTask := (\<lambda>h t r g i. Inl (TaskclusterRestFailure 500))\<rparr>"

text \<open>The task asks for a scope the worker does not support.\<close>

definition bad_scope_world :: world where
  "bad_scope_world = calm_world\<lparr>validate_task := (\<lambda>t scopes. Inl TaskVerificationError)\<rparr>"

text \<open>The same, and the run is resolved already: the report answers with HTTP 409.\<close>

definition resolved_world :: world where
  "resolved_world =
     bad_scope_world\<lparr>tc_reportException := (\<lambda>h t r x. Inl (TaskclusterRestFailure 409))\<rparr>"

text \<open>The artifact cannot be created: the call answers with HTTP 409.\<close>

definition artifact_conflict_world :: world where
  "artifact_conflict_world =
     calm_world\<lparr>tc_createArtifact := (\<lambda>h t r d c e. Inl (TaskclusterRestFailure 409))\<rparr>"

text \<open>
  No signing server gives a token during the first pass; from the second pass
  on, all but \<open>s2\<close> do.
\<close>

definition flaky_world :: world where
  "flaky_world = calm_world\<lparr>requests_post :=
     (\<lambda>h u ip d a. Inr (ok_response
        (if length (filter (\<lambda>e. e = EShuffle) h) < 2 \<or> u = ''https://s2/token'' then []
         else ''tok'') JNull))\<rparr>"

text \<open>Every signing server answers with HTTP 500.\<close>

definition down_world :: world where
  "down_world = calm_world\<lparr>requests_post :=
     (\<lambda>h u ip d a. Inr \<lparr>status_code = 500, content = [], json_body = Inr JNull\<rparr>)\<rparr>"

text \<open>The completion report answers with HTTP 409.\<close>

definition completed_conflict_world :: world where
  "completed_conflict_world =
     calm_world\<lparr>tc_reportCompleted := (\<lambda>h t r. Inl (TaskclusterRestFailure 409))\<rparr>"

section \<open>Rules for traces\<close>

lemma extends_refl: "extends s [] s"
  unfolding extends_def by (rule exI [of _ "signing_servers s"]) simp

lemma extends_trace: "extends s evs s' \<Longrightarrow> trace s' = trace s @ evs"
  unfolding extends_def by auto

lemma extends_trans:
  assumes "extends s evs s'" and "extends s' evs' s''"
  shows "extends s (evs @ evs') s''"
proof -
  from assms(1) obtain xs where 1: "s' = s\<lparr>trace := trace s @ evs, signing_servers := xs\<rparr>"
    and 2: "mset xs = mset (signing_servers s)"
    unfolding extends_def by blast
  from assms(2) obtain ys where 3: "s'' = s'\<lparr>trace := trace s' @ evs', signing_servers := ys\<rparr>"
    and 4: "mset ys = mset (signing_servers s')"
    unfolding extends_def by blast
  have "s'' = s\<lparr>trace := trace s @ evs @ evs', signing_servers := ys\<rparr>"
    using 1 3 by simp
  moreover have "mset ys = mset (signing_servers s)"
    using 1 2 4 by simp
  ultimately show ?thesis
    unfolding extends_def by auto
qed

lemma extends_event: "extends s [ev] (s\<lparr>trace := trace s @ [ev]\<rparr>)"
  unfolding extends_def by (rule exI [of _ "signing_servers s"]) simp

lemma emitsI:
  assumes "\<And>s. \<exists>evs. extends s evs (snd (m s)) \<and> Q (fst (m s)) evs"
  shows "emits Q m"
  using assms unfolding emits_def by blast

lemma emitsD:
  assumes "emits Q m"
  obtains evs where "extends s evs (snd (m s))" and "Q (fst (m s)) evs"
  using assms unfolding emits_def by blast

lemma emits_weaken:
  assumes "emits Q m" and "\<And>r evs. Q r evs \<Longrightarrow> Q' r evs"
  shows "emits Q' m"
  using assms unfolding emits_def by blast

lemma emits_returnM: "Q (Inr x) [] \<Longrightarrow> emits Q (returnM x)"
  unfolding emits_def returnM_def using extends_refl by auto

lemma emits_raiseM: "Q (Inl e) [] \<Longrightarrow> emits Q (raiseM e)"
  unfolding emits_def raiseM_def using extends_refl by auto

lemma emits_liftE: "Q r [] \<Longrightarrow> emits Q (liftE r)"
  unfolding emits_def liftE_def using extends_refl by auto

lemma emits_observe: "(\<And>r. Q r []) \<Longrightarrow> emits Q (observe f)"
  unfolding emits_def observe_def using extends_refl by auto

lemma emits_effect: "(\<And>r. Q r [ev]) \<Longrightarrow> emits Q (effect ev f)"
  unfolding emits_def effect_def using extends_event by auto

lemma emits_with_self: "(\<And>s. emits Q (f s)) \<Longrightarrow> emits Q (with_self f)"
  unfolding emits_def with_self_def by blast

lemma bindM_Inl: "m s = (Inl e, s') \<Longrightarrow> bindM m f s = (Inl e, s')"
  by (simp add: bindM_def)

lemma bindM_Inr: "m s = (Inr x, s') \<Longrightarrow> bindM m f s = f x s'"
  by (simp add: bindM_def)

lemma emits_bindM:
  assumes m: "emits Q1 m"
    and f: "\<And>x. emits (Q2 x) (f x)"
    and l: "\<And>e evs. Q1 (Inl e) evs \<Longrightarrow> Q (Inl e) evs"
    and r: "\<And>x evs r evs'. Q1 (Inr x) evs \<Longrightarrow> Q2 x r evs' \<Longrightarrow> Q r (evs @ evs')"
  shows "emits Q (bindM m f)"
proof (rule emitsI)
  fix s
  obtain a s' where ms: "m s = (a, s')"
    by (cases "m s")
  from m obtain evs where "extends s evs (snd (m s))" and "Q1 (fst (m s)) evs"
    by (rule emitsD)
  with ms have 1: "extends s evs s'" and 2: "Q1 a evs"
    by simp_all
  show "\<exists>evs. extends s evs (snd (bindM m f s)) \<and> Q (fst (bindM m f s)) evs"
  proof (cases a)
    case (Inl e)
    with ms have "bindM m f s = (Inl e, s')"
      by (simp add: bindM_Inl)
    with 1 2 Inl l show ?thesis by auto
  next
    case (Inr x)
    with ms have 3: "bindM m f s = f x s'"
      by (simp add: bindM_Inr)
    from f obtain evs' where 4: "extends s' evs' (snd (f x s'))"
      and 5: "Q2 x (fst (f x s')) evs'"
      by (rule emitsD)
    from 1 4 have "extends s (evs @ evs') (snd (bindM m f s))"
      unfolding 3 by (rule extends_trans)
    moreover from 2 5 Inr have "Q (fst (bindM m f s)) (evs @ evs')"
      unfolding 3 by (auto intro: r)
    ultimately show ?thesis by blast
  qed
qed

lemma only_returnM: "only P (returnM x)"
  unfolding only_def by (rule emits_returnM) simp

lemma only_raiseM: "only P (raiseM e)"
  unfolding only_def by (rule emits_raiseM) simp

lemma only_liftE: "only P (liftE r)"
  unfolding only_def by (rule emits_liftE) simp

lemma only_observe: "only P (observe f)"
  unfolding only_def by (rule emits_observe) simp

lemma only_effect: "P ev \<Longrightarrow> only P (effect ev f)"
  unfolding only_def by (rule emits_effect) simp

lemma only_with_self: "(\<And>s. only P (f s)) \<Longrightarrow> only P (with_self f)"
  unfolding only_def by (rule emits_with_self)

lemma only_bindM: "only P m \<Longrightarrow> (\<And>x. only P (f x)) \<Longrightarrow> only P (bindM m f)"
  unfolding only_def by (erule emits_bindM) auto

lemma only_if: "only P a \<Longrightarrow> only P b \<Longrightarrow> only P (if c then a else b)"
  by simp

lemma emits_retry_rounds:
  assumes act: "emits Q action"
    and none: "Q (Inr none) []"
    and app: "\<And>e evs r evs'. Q (Inl e) evs \<Longrightarrow> Q r evs' \<Longrightarrow> Q r (evs @ evs')"
  shows "emits Q (retry_rounds k n attempts none action)"
proof (induction k arbitrary: n)
  case 0
  show ?case by (simp add: emits_returnM none)
next
  case (Suc k)
  show ?case
  proof (rule emitsI)
    fix s
    obtain a s' where as: "action s = (a, s')"
      by (cases "action s")
    from act obtain evs where "extends s evs (snd (action s))" and "Q (fst (action s)) evs"
      by (rule emitsD)
    with as have 1: "extends s evs s'" and 2: "Q a evs"
      by simp_all
    let ?m = "retry_rounds (Suc k) n attempts none action"
    show "\<exists>evs. extends s evs (snd (?m s)) \<and> Q (fst (?m s)) evs"
    proof (cases a)
      case (Inr x)
      with as have "?m s = (Inr x, s')" by simp
      with 1 2 Inr show ?thesis by auto
    next
      case (Inl e)
      show ?thesis
      proof (cases "n = attempts")
        case True
        with as Inl have "?m s = (Inl e, s')" by simp
        with 1 2 Inl show ?thesis by auto
      next
        case False
        with as Inl have 3: "?m s = retry_rounds k (n + 1) attempts none action s'" by simp
        from Suc.IH [of "n + 1"] obtain evs'
          where 4: "extends s' evs' (snd (retry_rounds k (n + 1) attempts none action s'))"
            and 5: "Q (fst (retry_rounds k (n + 1) attempts none action s')) evs'"
          by (rule emitsD)
        from 1 4 have "extends s (evs @ evs') (snd (?m s))"
          unfolding 3 by (rule extends_trans)
        moreover from 2 5 Inl have "Q (fst (?m s)) (evs @ evs')"
          unfolding 3 by (auto intro: app)
        ultimately show ?thesis by blast
      qed
    qed
  qed
qed

lemma only_retriable: "only P action \<Longrightarrow> only P (retriable attempts none action)"
  unfolding only_def retriable_def by (erule emits_retry_rounds) auto

lemma effect_apply: "effect ev f s = (f (trace s), s\<lparr>trace := trace s @ [ev]\<rparr>)"
  by (simp add: effect_def)

lemma only_mono: "only P m \<Longrightarrow> (\<And>e. P e \<Longrightarrow> P' e) \<Longrightarrow> only P' m"
  unfolding only_def by (erule emits_weaken) (auto simp: list_all_iff)

lemma shuffle_loop_length: "length (shuffle_loop r k xs) = length xs"
  by (induction k arbitrary: xs) (simp_all add: Let_def)

lemma mset_shuffle_loop: "k < length xs \<Longrightarrow> mset (shuffle_loop r k xs) = mset xs"
proof (induction k arbitrary: xs)
  case 0
  show ?case by simp
next
  case (Suc k)
  let ?j = "r (Suc k) mod (Suc k + 1)"
  let ?ys = "xs[Suc k := xs ! ?j, ?j := xs ! Suc k]"
  have j: "?j < length xs"
  proof -
    have "?j < Suc k + 1" by (rule mod_less_divisor) simp
    with Suc.prems show ?thesis by linarith
  qed
  have "mset ?ys = mset xs"
    using Suc.prems j by (simp add: mset_swap)
  moreover have "k < length ?ys"
    using Suc.prems by simp
  ultimately show ?case
    using Suc.IH [of ?ys] by (simp add: Let_def)
qed

lemma mset_random_shuffle: "mset (random_shuffle r xs) = mset xs"
proof (cases xs)
  case Nil
  then show ?thesis by (simp add: random_shuffle_def)
next
  case (Cons x ys)
  then show ?thesis by (simp add: random_shuffle_def mset_shuffle_loop)
qed

lemma extends_shuffle_servers: "extends s [EShuffle] (snd (shuffle_servers w s))"
  unfolding extends_def shuffle_servers_def
  by (rule exI [of _ "random_shuffle (random_below w (trace s)) (signing_servers s)"])
     (simp add: mset_random_shuffle)

lemma only_shuffle_servers: "P EShuffle \<Longrightarrow> only P (shuffle_servers w)"
  unfolding only_def emits_def
  using extends_shuffle_servers by (intro allI exI [of _ "[EShuffle]"]) simp

lemmas only_intros = only_bindM only_effect only_liftE only_observe only_returnM only_raiseM
  only_with_self

lemma only_token_loop: "only signing_event (token_loop w auth xs)"
  by (induction xs) (simp_all add: only_intros)

lemma only_get_token_once: "only signing_event (get_token_once w out)"
  unfolding get_token_once_def
  by (intro only_intros only_shuffle_servers only_token_loop)
     (simp_all add: only_intros split: option.split)

lemma only_get_token: "only signing_event (get_token w out)"
  unfolding get_token_def by (rule only_retriable) (rule only_get_token_once)

lemma only_sign_file: "only signing_event (sign_file w d f t)"
  unfolding sign_file_def Let_def
  by (intro only_intros only_get_token) simp

lemma only_create_artifact: "only upload_event (create_artifact w t r dest f c)"
  unfolding create_artifact_def Let_def
  by (intro only_intros) simp_all

lemma only_get_manifest: "only pipeline_event (get_manifest w url)"
  unfolding get_manifest_def
  by (rule only_retriable) (intro only_intros, simp add: pipeline_event_def)

lemma signing_pipeline: "signing_event e \<Longrightarrow> pipeline_event e"
  by (cases e) (simp_all add: pipeline_event_def)

lemma upload_pipeline: "upload_event e \<Longrightarrow> pipeline_event e"
  by (cases e) (simp_all add: pipeline_event_def)

lemma only_download_and_sign_file:
  "only pipeline_event (download_and_sign_file w t r url checksum)"
  unfolding download_and_sign_file_def Let_def
  by (intro only_intros only_if
        only_mono [OF only_sign_file signing_pipeline]
        only_mono [OF only_create_artifact upload_pipeline])
     (simp_all add: pipeline_event_def)

lemma only_sign_entries: "only pipeline_event (sign_entries w t r prefix es)"
  by (induction es) (simp_all add: only_intros only_download_and_sign_file)

lemma only_sign: "only pipeline_event (sign w t r task)"
  unfolding sign_def Let_def
  by (intro only_intros only_get_manifest only_sign_entries
        only_mono [OF only_create_artifact upload_pipeline])
     (simp_all add: pipeline_event_def)

lemma pipeline_task: "pipeline_event e \<Longrightarrow> task_event e"
  by (cases e) (simp_all add: pipeline_event_def task_event_def)

lemma only_claim_and_run: "only task_event (claim_and_run w t r)"
  unfolding claim_and_run_def
  by (intro only_intros only_mono [OF only_sign pipeline_task])
     (simp_all add: task_event_def)

lemma try_block_extends:
  "\<exists>evs. extends s evs (snd (try_block w body s)) \<and> list_all task_event evs"
proof -
  have run: "\<exists>evs. extends s evs (snd (claim_and_run w t r s)) \<and> list_all task_event evs" for t r
    using only_claim_and_run [of w t r] unfolding only_def emits_def by blast
  show ?thesis
  proof (cases "body_task_id body")
    case (Inl e)
    then show ?thesis
      using extends_refl [of s] by (auto simp: try_block_def intro!: exI [of _ "[]"])
  next
    case t: (Inr t)
    show ?thesis
    proof (cases "body_run_id body")
      case (Inl e)
      then show ?thesis
        using t extends_refl [of s] by (auto simp: try_block_def intro!: exI [of _ "[]"])
    next
      case (Inr r)
      have "snd (try_block w body s) = snd (claim_and_run w t r s)"
        using t Inr by (simp add: try_block_def split: prod.splits sum.splits)
      then show ?thesis
        using run [of t r] by simp
    qed
  qed
qed

lemma task_event_not_ack: "list_all task_event evs \<Longrightarrow> EAck \<notin> set evs"
  by (auto simp: list_all_iff task_event_def)

lemma only_message_ack: "P EAck \<Longrightarrow> only P message_ack"
  unfolding only_def emits_def message_ack_def
  using extends_event by (intro allI exI [of _ "[EAck]"]) simp

lemma only_handle_exception:
  "(\<And>x. P (EReportException t r x)) \<Longrightarrow> only P (handle_exception w t r e)"
  by (cases e) (simp_all add: only_intros)

lemma only_process_message: "only (\<lambda>e. True) (process_message w body)"
  unfolding only_def
proof (rule emitsI)
  fix s
  obtain out s1 where tb: "try_block w body s = (out, s1)"
    by (cases "try_block w body s")
  from try_block_extends [of s w body] tb obtain evs where 1: "extends s evs s1"
    by auto
  have "\<exists>evs'. extends s1 evs' (snd (process_message w body s))"
  proof (cases out)
    case (Inr u)
    with tb have "process_message w body s = message_ack s1"
      by (simp add: process_message_def)
    then show ?thesis
      using only_message_ack [of "\<lambda>e. True"] unfolding only_def emits_def by auto
  next
    case (Inl x)
    obtain e t r where x: "x = (e, t, r)"
      by (cases x)
    let ?h = "bindM (handle_exception w t r e) (\<lambda>_. message_ack)"
    from tb Inl x have "process_message w body s = ?h s1"
      by (simp add: process_message_def)
    moreover have "only (\<lambda>e. True) ?h"
      by (intro only_bindM only_handle_exception only_message_ack) simp_all
    ultimately show ?thesis
      unfolding only_def emits_def by auto
  qed
  then obtain evs' where "extends s1 evs' (snd (process_message w body s))" ..
  with 1 have "extends s (evs @ evs') (snd (process_message w body s))"
    by (rule extends_trans)
  then show "\<exists>evs. extends s evs (snd (process_message w body s))
      \<and> list_all (\<lambda>e. True) evs"
    by (auto simp: list_all_iff)
qed

lemma token_loop_skip:
  assumes "k \<le> length xs"
    and "\<forall>j<k. empty_answer (requests_post w (trace s @ map ETokenRequest (take j xs))
            (''https://'' @ xs ! j @ ''/token'') (my_ip w) (5 * 60) auth)"
  shows "token_loop w auth xs s =
           token_loop w auth (drop k xs) (s\<lparr>trace := trace s @ map ETokenRequest (take k xs)\<rparr>)"
  using assms
proof (induction k arbitrary: xs s)
  case 0
  show ?case by simp
next
  case (Suc k)
  then obtain x ys where xs: "xs = x # ys"
    by (cases xs) auto
  let ?s' = "s\<lparr>trace := trace s @ [ETokenRequest x]\<rparr>"
  from Suc.prems(2) have "empty_answer (requests_post w (trace s)
        (''https://'' @ x @ ''/token'') (my_ip w) (5 * 60) auth)"
    unfolding xs by (auto dest: spec [of _ 0])
  then have step: "token_loop w auth xs s = token_loop w auth ys ?s'"
    unfolding xs
    by (auto simp: bindM_def effect_def liftE_def empty_answer_def split: sum.splits)
  have "\<forall>j<k. empty_answer (requests_post w (trace ?s' @ map ETokenRequest (take j ys))
            (''https://'' @ ys ! j @ ''/token'') (my_ip w) (5 * 60) auth)"
  proof (intro allI impI)
    fix j assume "j < k"
    then have "Suc j < Suc k" by simp
    with Suc.prems(2) show "empty_answer (requests_post w
        (trace ?s' @ map ETokenRequest (take j ys))
        (''https://'' @ ys ! j @ ''/token'') (my_ip w) (5 * 60) auth)"
      unfolding xs by (auto dest!: spec [of _ "Suc j"])
  qed
  moreover from Suc.prems(1) have "k \<le> length ys"
    unfolding xs by simp
  ultimately have "token_loop w auth ys ?s' =
      token_loop w auth (drop k ys) (?s'\<lparr>trace := trace ?s' @ map ETokenRequest (take k ys)\<rparr>)"
    by (intro Suc.IH)
  with step show ?case
    unfolding xs by simp
qed

lemma retry_rounds_run:
  assumes "rounds + m = attempts + 1"
    and "n < rounds"
    and "\<forall>i<n. isl (fst (action (((\<lambda>s. snd (action s)) ^^ i) s)))"
    and "n + 1 < rounds \<longrightarrow> \<not> isl (fst (action (((\<lambda>s. snd (action s)) ^^ n) s)))"
  shows "retry_rounds rounds m attempts none action s = action (((\<lambda>s. snd (action s)) ^^ n) s)"
  using assms
proof (induction n arbitrary: rounds m s)
  case 0
  then obtain k where rounds: "rounds = Suc k"
    by (cases rounds) auto
  obtain a s' where act: "action s = (a, s')"
    by (cases "action s")
  show ?case
  proof (cases a)
    case (Inr x)
    with act show ?thesis unfolding rounds by simp
  next
    case (Inl e)
    with act "0.prems"(4) have "rounds = 1"
      unfolding rounds by auto
    with "0.prems"(1) have "m = attempts" by simp
    with act Inl show ?thesis unfolding rounds by simp
  qed
next
  case (Suc n)
  then obtain k where rounds: "rounds = Suc k"
    by (cases rounds) auto
  obtain a s' where act: "action s = (a, s')"
    by (cases "action s")
  from Suc.prems(3) have "isl (fst (action s))"
    by (auto dest: spec [of _ 0])
  with act obtain e where a: "a = Inl e"
    by (cases a) auto
  from Suc.prems(1,2) have m: "m \<noteq> attempts"
    unfolding rounds by simp
  have step: "retry_rounds rounds m attempts none action s =
      retry_rounds k (m + 1) attempts none action s'"
    unfolding rounds using act a m by simp
  have s': "s' = snd (action s)"
    using act by simp
  have iter: "((\<lambda>s. snd (action s)) ^^ i) s' = ((\<lambda>s. snd (action s)) ^^ Suc i) s" for i
    unfolding s' using funpow_swap1 [of "\<lambda>s. snd (action s)" i s] by simp
  have "retry_rounds k (m + 1) attempts none action s' =
      action (((\<lambda>s. snd (action s)) ^^ n) s')"
  proof (rule Suc.IH)
    show "k + (m + 1) = attempts + 1"
      using Suc.prems(1) unfolding rounds by simp
    show "n < k"
      using Suc.prems(2) unfolding rounds by simp
    show "\<forall>i<n. isl (fst (action (((\<lambda>s. snd (action s)) ^^ i) s')))"
      using Suc.prems(3) unfolding iter by auto
    show "n + 1 < k \<longrightarrow> \<not> isl (fst (action (((\<lambda>s. snd (action s)) ^^ n) s')))"
      using Suc.prems(4) unfolding iter rounds by auto
  qed
  with step show ?case
    unfolding iter by simp
qed

lemma token_loop_stop:
  assumes "k < length xs"
    and "\<forall>j<k. empty_answer (requests_post w (trace s @ map ETokenRequest (take j xs))
            (''https://'' @ xs ! j @ ''/token'') (my_ip w) (5 * 60) auth)"
    and "a = requests_post w (trace s @ map ETokenRequest (take k xs))
            (''https://'' @ xs ! k @ ''/token'') (my_ip w) (5 * 60) auth"
    and "s2 = s\<lparr>trace := trace s @ map ETokenRequest (take (Suc k) xs)\<rparr>"
  shows "token_loop w auth xs s =
           (case a of
              Inl e \<Rightarrow> (Inl e, s2)
            | Inr r \<Rightarrow>
                (case raise_for_status r of
                   Inl e \<Rightarrow> (Inl e, s2)
                 | Inr u \<Rightarrow> if content r \<noteq> [] then (Inr (Some (content r)), s2)
                            else token_loop w auth (drop (Suc k) xs) s2))"
proof -
  have "token_loop w auth xs s =
      token_loop w auth (drop k xs) (s\<lparr>trace := trace s @ map ETokenRequest (take k xs)\<rparr>)"
    using assms(1,2) by (intro token_loop_skip) simp_all
  moreover have "drop k xs = xs ! k # drop (Suc k) xs"
    using assms(1) by (simp add: Cons_nth_drop_Suc)
  moreover have "take (Suc k) xs = take k xs @ [xs ! k]"
    using assms(1) by (simp add: take_Suc_conv_app_nth)
  ultimately show ?thesis
    unfolding assms(3,4)
    by (simp add: bindM_def effect_def liftE_def returnM_def split: sum.splits)
qed

lemma get_token_once_unfold:
  assumes "s1 = snd (shuffle_servers w s)"
  shows "get_token_once w out s =
     (case token_loop w (signing_server_auth s1) (signing_servers s1) s1 of
        (Inl e, s2) \<Rightarrow> (Inl e, s2)
      | (Inr None, s2) \<Rightarrow> (Inl (SigningServerError ''Cannot retrieve signing token''), s2)
      | (Inr (Some t), s2) \<Rightarrow>
          if t = [] then (Inl (SigningServerError ''Cannot retrieve signing token''), s2)
          else (write_file w (trace s2) out t, s2\<lparr>trace := trace s2 @ [EWriteFile out t]\<rparr>))"
  unfolding assms get_token_once_def
  by (simp add: bindM_def shuffle_servers_def with_self_def raiseM_def effect_def
        split: prod.splits sum.splits option.splits)

lemma transparent_Nil: "transparent w h r []"
  by (simp add: transparent_def)

lemma transparent_single:
  "(\<And>e. tc_failure w h ev = Some e \<Longrightarrow> r = Inl e) \<Longrightarrow> transparent w h r [ev]"
  unfolding transparent_def
proof (intro allI impI)
  fix pre ev' post e
  assume a: "\<And>e. tc_failure w h ev = Some e \<Longrightarrow> r = Inl e"
    and b: "[ev] = pre @ ev' # post \<and> tc_failure w (h @ pre) ev' = Some e"
  from b have "pre = []" "ev' = ev" "post = []"
    by (simp_all add: Cons_eq_append_conv)
  with a b show "post = [] \<and> r = Inl e"
    by simp
qed

lemma transparent_quiet:
  assumes "\<forall>ev\<in>set evs. \<forall>h. tc_failure w h ev = None"
  shows "transparent w h r evs"
  unfolding transparent_def
proof (intro allI impI)
  fix pre ev post e
  assume "evs = pre @ ev # post \<and> tc_failure w (h @ pre) ev = Some e"
  then have "ev \<in> set evs" and "tc_failure w (h @ pre) ev = Some e"
    by simp_all
  with assms show "post = [] \<and> r = Inl e"
    by simp
qed

lemma transparent_no_failure:
  assumes "transparent w h (Inr x) evs" and "evs = pre @ ev # post"
  shows "tc_failure w (h @ pre) ev = None"
proof (cases "tc_failure w (h @ pre) ev")
  case None
  then show ?thesis .
next
  case (Some e)
  with assms have "Inr x = (Inl e :: exn + 'a)"
    unfolding transparent_def by blast
  then show ?thesis by simp
qed

lemma transparent_append:
  assumes 1: "transparent w h (Inr x :: exn + 'a) evs"
    and 2: "transparent w (h @ evs) (r :: exn + 'b) evs'"
  shows "transparent w h r (evs @ evs')"
  unfolding transparent_def
proof (intro allI impI)
  fix pre ev post e
  assume a: "evs @ evs' = pre @ ev # post \<and> tc_failure w (h @ pre) ev = Some e"
  then have eq: "evs @ evs' = pre @ ev # post" and f: "tc_failure w (h @ pre) ev = Some e"
    by simp_all
  from eq consider
    (left) us where "evs = pre @ ev # us" |
    (right) us where "pre = evs @ us" and "evs' = us @ ev # post"
    by (auto simp: append_eq_append_conv2 append_eq_Cons_conv Cons_eq_append_conv)
  then show "post = [] \<and> r = Inl e"
  proof cases
    case left
    with 1 have "tc_failure w (h @ pre) ev = None"
      by (rule transparent_no_failure)
    with f show ?thesis by simp
  next
    case right
    with 2 f show ?thesis
      unfolding transparent_def by (metis append.assoc)
  qed
qed

lemma passes_returnM: "passes_failures w (returnM x)"
  unfolding passes_failures_def emits_from_def returnM_def
  using extends_refl transparent_Nil by (intro allI exI [of _ "[]"]) simp

lemma passes_raiseM: "passes_failures w (raiseM e)"
  unfolding passes_failures_def emits_from_def raiseM_def
  using extends_refl transparent_Nil by (intro allI exI [of _ "[]"]) simp

lemma passes_liftE: "passes_failures w (liftE r)"
  unfolding passes_failures_def emits_from_def liftE_def
  using extends_refl transparent_Nil by (intro allI exI [of _ "[]"]) simp

lemma passes_observe: "passes_failures w (observe f)"
  unfolding passes_failures_def emits_from_def observe_def
  using extends_refl transparent_Nil by (intro allI exI [of _ "[]"]) simp

lemma passes_effect:
  assumes "\<And>h e. tc_failure w h ev = Some e \<Longrightarrow> f h = Inl e"
  shows "passes_failures w (effect ev f)"
  unfolding passes_failures_def emits_from_def
proof
  fix s :: state
  have "transparent w (trace s) (f (trace s)) [ev]"
    using assms by (intro transparent_single) simp
  then show "\<exists>evs. extends s evs (snd (effect ev f s))
      \<and> transparent w (trace s) (fst (effect ev f s)) evs"
    using extends_event [of s ev] by (intro exI [of _ "[ev]"]) (simp add: effect_def)
qed

lemma passes_with_self: "(\<And>s. passes_failures w (f s)) \<Longrightarrow> passes_failures w (with_self f)"
  unfolding passes_failures_def emits_from_def with_self_def by blast

lemma passes_only:
  assumes "only P m" and "\<And>ev h. P ev \<Longrightarrow> tc_failure w h ev = None"
  shows "passes_failures w m"
  unfolding passes_failures_def emits_from_def
proof
  fix s :: state
  from assms(1) obtain evs where 1: "extends s evs (snd (m s))" and 2: "list_all P evs"
    unfolding only_def emits_def by blast
  from 2 assms(2) have "\<forall>ev\<in>set evs. \<forall>h. tc_failure w h ev = None"
    by (simp add: list_all_iff)
  then have "transparent w (trace s) (fst (m s)) evs"
    by (rule transparent_quiet)
  with 1 show "\<exists>evs. extends s evs (snd (m s)) \<and> transparent w (trace s) (fst (m s)) evs"
    by blast
qed

lemma passes_bindM:
  assumes m: "passes_failures w m" and g: "\<And>x. passes_failures w (g x)"
  shows "passes_failures w (bindM m g)"
  unfolding passes_failures_def emits_from_def
proof
  fix s :: state
  obtain a s' where ms: "m s = (a, s')"
    by (cases "m s")
  from m obtain evs where "extends s evs (snd (m s))"
    and "transparent w (trace s) (fst (m s)) evs"
    unfolding passes_failures_def emits_from_def by blast
  with ms have 1: "extends s evs s'" and 2: "transparent w (trace s) a evs"
    by simp_all
  show "\<exists>evs. extends s evs (snd (bindM m g s))
      \<and> transparent w (trace s) (fst (bindM m g s)) evs"
  proof (cases a)
    case (Inl e)
    with ms have "bindM m g s = (Inl e, s')"
      by (simp add: bindM_Inl)
    moreover from 2 Inl have "transparent w (trace s) (Inl e :: exn + 'b) evs"
      unfolding transparent_def by blast
    ultimately show ?thesis
      using 1 by auto
  next
    case (Inr x)
    with ms have 3: "bindM m g s = g x s'"
      by (simp add: bindM_Inr)
    from g [of x] obtain evs' where 4: "extends s' evs' (snd (g x s'))"
      and "transparent w (trace s') (fst (g x s')) evs'"
      unfolding passes_failures_def emits_from_def by blast
    with 1 have 5: "transparent w (trace s @ evs) (fst (g x s')) evs'"
      by (simp add: extends_trace)
    from 1 4 have "extends s (evs @ evs') (snd (bindM m g s))"
      unfolding 3 by (rule extends_trans)
    moreover from 2 5 Inr have "transparent w (trace s) (fst (bindM m g s)) (evs @ evs')"
      unfolding 3 by (intro transparent_append [of w "trace s" x evs]) simp_all
    ultimately show ?thesis by blast
  qed
qed

lemma passes_if: "passes_failures w a \<Longrightarrow> passes_failures w b \<Longrightarrow> passes_failures w (if c then a else b)"
  by simp

lemmas passes_intros = passes_bindM passes_liftE passes_observe passes_returnM passes_raiseM
  passes_with_self passes_if

lemma signing_no_tc: "signing_event ev \<Longrightarrow> tc_failure w h ev = None"
  by (cases ev) simp_all

lemma passes_sign_file: "passes_failures w (sign_file w d f t)"
  using only_sign_file by (rule passes_only) (rule signing_no_tc)

lemma only_get_manifest_http: "only (\<lambda>e. \<exists>u. e = EHttpGet u) (get_manifest w url)"
  unfolding get_manifest_def
  by (rule only_retriable) (intro only_intros, simp)

lemma passes_get_manifest: "passes_failures w (get_manifest w url)"
  using only_get_manifest_http by (rule passes_only) auto

lemma passes_create_artifact: "passes_failures w (create_artifact w t r dest f c)"
  unfolding create_artifact_def Let_def
  by (intro passes_intros passes_effect) (simp_all add: failure_of_def split: sum.splits)

lemma passes_download_and_sign_file:
  "passes_failures w (download_and_sign_file w t r url checksum)"
  unfolding download_and_sign_file_def Let_def
  by (intro passes_intros passes_effect passes_sign_file passes_create_artifact) simp_all

lemma passes_sign_entries: "passes_failures w (sign_entries w t r prefix es)"
  by (induction es) (simp_all add: passes_intros passes_download_and_sign_file)

lemma passes_sign: "passes_failures w (sign w t r task)"
  unfolding sign_def Let_def
  by (intro passes_intros passes_effect passes_get_manifest passes_sign_entries
        passes_create_artifact) simp_all

lemma passes_claim_and_run: "passes_failures w (claim_and_run w t r)"
  unfolding claim_and_run_def
  by (intro passes_intros passes_effect passes_sign)
     (simp_all add: failure_of_def split: sum.splits)

lemma try_block_transparent:
  assumes "try_block w body s = (out, s1)"
    and "trace s1 = trace s @ pre @ ev # post"
    and "tc_failure w (trace s @ pre) ev = Some e"
  shows "post = [] \<and> (\<exists>t r. out = Inl (e, t, r))"
proof -
  have evs: "pre @ ev # post \<noteq> []" by simp
  obtain t where t: "body_task_id body = Inr t"
    using assms(1,2) by (cases "body_task_id body") (auto simp: try_block_def)
  obtain r where r: "body_run_id body = Inr r"
    using assms(1,2) t by (cases "body_run_id body") (auto simp: try_block_def)
  obtain a where run: "claim_and_run w t r s = (a, s1)"
    using assms(1) t r
    by (cases "claim_and_run w t r s") (auto simp: try_block_def split: sum.splits)
  from passes_claim_and_run [of w t r] obtain evs'
    where "extends s evs' (snd (claim_and_run w t r s))"
      and "transparent w (trace s) (fst (claim_and_run w t r s)) evs'"
    unfolding passes_failures_def emits_from_def by blast
  with run have "trace s1 = trace s @ evs'" and tr: "transparent w (trace s) a evs'"
    by (simp_all add: extends_trace)
  with assms(2) have "evs' = pre @ ev # post"
    by simp
  with tr assms(3) have "post = []" and a: "a = Inl e"
    unfolding transparent_def by blast+
  moreover from run a assms(1) t r have "out = Inl (e, t, r)"
    by (simp add: try_block_def)
  ultimately show ?thesis by blast
qed

lemma process_message_by_status:
  assumes "try_block w body s = (Inl (TaskclusterRestFailure c, t, r), s1)"
  shows "process_message w body s = by_status c s1"
  using assms
  by (simp add: process_message_def by_status_def message_ack_def bindM_def returnM_def
        raiseM_def)

section \<open>The claims\<close>

subsection \<open>A claim conflict\<close>

text \<open>
  C2. When the claim call answers with HTTP 409, the message is acknowledged, no further
  call to the task-tracking service is made and no exception leaves the handler: the
  message handler returns normally, and the claim call and the acknowledgement are the
  only two side effects.
\<close>

theorem claim_conflict_acked:
  assumes "body_task_id body = Inr task_id"
    and "body_run_id body = Inr run_id"
    and "tc_claimTask w (trace s) task_id run_id (worker_type s) (worker_type s)
           = Inl (TaskclusterRestFailure 409)"
  shows "process_message w body s =
           (Inr (), s\<lparr>trace := trace s @
                       [EClaimTask task_id run_id (worker_type s) (worker_type s), EAck]\<rparr>)"
proof -
  let ?ev = "EClaimTask task_id run_id (worker_type s) (worker_type s)"
  have "claim_and_run w task_id run_id s
          = (Inl (TaskclusterRestFailure 409), s\<lparr>trace := trace s @ [?ev]\<rparr>)"
    using assms(3) by (simp add: claim_and_run_def with_self_def bindM_def effect_apply)
  then show ?thesis
    using assms(1,2)
    by (simp add: process_message_def try_block_def bindM_def returnM_def message_ack_def)
qed

theorem claim_conflict_acked_witness:
  "body_task_id body1 = Inr (JStr ''t'') \<and> body_run_id body1 = Inr (JNum 0)
   \<and> tc_claimTask conflict_world (trace state1) (JStr ''t'') (JNum 0)
        (worker_type state1) (worker_type state1) = Inl (TaskclusterRestFailure 409)
   \<and> process_message conflict_world body1 state1 =
        (Inr (), state1\<lparr>trace := [EClaimTask (JStr ''t'') (JNum 0) ''signing-worker-v1''
                                    ''signing-worker-v1'', EAck]\<rparr>)"
proof -
  have 1: "body_task_id body1 = Inr (JStr ''t'')"
    by (simp add: body_task_id_def body1_def bind_sum_def)
  have 2: "body_run_id body1 = Inr (JNum 0)"
    by (simp add: body_run_id_def body1_def bind_sum_def)
  have 3: "tc_claimTask conflict_world (trace state1) (JStr ''t'') (JNum 0)
        (worker_type state1) (worker_type state1) = Inl (TaskclusterRestFailure 409)"
    by (simp add: conflict_world_def)
  have 4: "trace state1 = []" "worker_type state1 = ''signing-worker-v1''"
    by (simp_all add: state1_def init_def)
  show ?thesis
    using claim_conflict_acked [OF 1 2 3] 1 2 3 4 by simp
qed

subsection \<open>When the message is acknowledged\<close>

text \<open>
  C1, as the code has it. Whatever the \<^verbatim>\<open>try\<close> block did, it did not acknowledge the
  message. After it, the message is acknowledged when the block returned, when it raised
  a failure of the task-tracking service with status 409 (a claim conflict is one), when
  it raised a validation error and the report of it went through, and when it raised any
  other exception that is not a failure of the task-tracking service. A failure of the
  task-tracking service with another status is raised again, and the message is not
  acknowledged.
\<close>

theorem ack_policy:
  assumes "try_block w body s = (out, s1)"
  shows "(out = Inr () \<longrightarrow>
            process_message w body s = (Inr (), s1\<lparr>trace := trace s1 @ [EAck]\<rparr>))
       \<and> (\<forall>c t r. out = Inl (TaskclusterRestFailure c, t, r) \<longrightarrow>
            process_message w body s =
              (if c = 409 then (Inr (), s1\<lparr>trace := trace s1 @ [EAck]\<rparr>)
               else (Inl (TaskclusterRestFailure c), s1)))
       \<and> (\<forall>e t r. out = Inl (e, t, r) \<and> (e = TaskVerificationError \<or> e = ValidationError)
              \<and> tc_reportException w (trace s1) t r ''malformed-payload'' = Inr () \<longrightarrow>
            process_message w body s =
              (Inr (), s1\<lparr>trace := trace s1 @
                                  [EReportException t r ''malformed-payload'', EAck]\<rparr>))
       \<and> (\<forall>e t r. out = Inl (e, t, r) \<and> (\<forall>c. e \<noteq> TaskclusterRestFailure c)
              \<and> e \<noteq> TaskVerificationError \<and> e \<noteq> ValidationError \<longrightarrow>
            process_message w body s = (Inr (), s1\<lparr>trace := trace s1 @ [EAck]\<rparr>))
       \<and> (\<exists>evs. trace s1 = trace s @ evs \<and> EAck \<notin> set evs)"
proof (intro conjI allI impI)
  assume "out = Inr ()"
  with assms show "process_message w body s = (Inr (), s1\<lparr>trace := trace s1 @ [EAck]\<rparr>)"
    by (simp add: process_message_def message_ack_def)
next
  fix c t r
  assume "out = Inl (TaskclusterRestFailure c, t, r)"
  with assms show "process_message w body s =
      (if c = 409 then (Inr (), s1\<lparr>trace := trace s1 @ [EAck]\<rparr>)
       else (Inl (TaskclusterRestFailure c), s1))"
    by (simp add: process_message_def message_ack_def bindM_def returnM_def raiseM_def)
next
  fix e t r
  assume "out = Inl (e, t, r) \<and> (e = TaskVerificationError \<or> e = ValidationError)
      \<and> tc_reportException w (trace s1) t r ''malformed-payload'' = Inr ()"
  with assms show "process_message w body s =
      (Inr (), s1\<lparr>trace := trace s1 @ [EReportException t r ''malformed-payload'', EAck]\<rparr>)"
    by (auto simp: process_message_def message_ack_def bindM_def effect_def)
next
  fix e t r
  assume "out = Inl (e, t, r) \<and> (\<forall>c. e \<noteq> TaskclusterRestFailure c)
      \<and> e \<noteq> TaskVerificationError \<and> e \<noteq> ValidationError"
  with assms show "process_message w body s = (Inr (), s1\<lparr>trace := trace s1 @ [EAck]\<rparr>)"
    by (cases e) (simp_all add: process_message_def message_ack_def bindM_def returnM_def)
next
  from try_block_extends [of s w body] assms
  obtain evs where "extends s evs s1" and "list_all task_event evs"
    by auto
  then show "\<exists>evs. trace s1 = trace s @ evs \<and> EAck \<notin> set evs"
    using extends_trace task_event_not_ack by blast
qed

theorem ack_policy_witness:
  "try_block outage_world body1 state1 =
     (Inl (TaskclusterRestFailure 500, JStr ''t'', JNum 0),
      state1\<lparr>trace := [EClaimTask (JStr ''t'') (JNum 0) ''signing-worker-v1''
                          ''signing-worker-v1'']\<rparr>)
   \<and> process_message outage_world body1 state1 =
     (Inl (TaskclusterRestFailure 500),
      state1\<lparr>trace := [EClaimTask (JStr ''t'') (JNum 0) ''signing-worker-v1''
                          ''signing-worker-v1'']\<rparr>)"
proof -
  have h: "try_block outage_world body1 state1 =
     (Inl (TaskclusterRestFailure 500, JStr ''t'', JNum 0),
      state1\<lparr>trace := [EClaimTask (JStr ''t'') (JNum 0) ''signing-worker-v1''
                          ''signing-worker-v1'']\<rparr>)"
    by (simp add: try_block_def body_task_id_def body_run_id_def body1_def bind_sum_def
          claim_and_run_def with_self_def bindM_def effect_def outage_world_def
          state1_def init_def)
  show ?thesis
    using ack_policy [OF h] h by simp
qed

text \<open>
  C1 as stated says that the message is not acknowledged on a claim conflict. It is.
\<close>

theorem ack_on_conflict_counterexample:
  "fst (process_message conflict_world body1 state1) = Inr ()
   \<and> last (trace (snd (process_message conflict_world body1 state1))) = EAck"
  by (simp add: process_message_def try_block_def body_task_id_def body_run_id_def body1_def
        bind_sum_def claim_and_run_def with_self_def bindM_def effect_def conflict_world_def
        state1_def init_def returnM_def message_ack_def)

subsection \<open>Failures of the task-tracking service\<close>

text \<open>
  C10, as the code has it. A failure of the task-tracking service raised inside the
  \<^verbatim>\<open>try\<close> block is handled by its status alone: with status 409 the message is
  acknowledged and nothing else is done, with any other status the failure is raised
  again and the message is not acknowledged. This holds of every call to the
  task-tracking service the \<^verbatim>\<open>try\<close> block makes, at whatever depth: when the service
  answers such a call with a failure, the call is the last thing the block does, and the
  failure is handled so. It is stated once more for the claim call, the fetch of the
  task and the completion report, from the answers of the service alone; and
  \<^verbatim>\<open>create_artifact\<close> raises the failure \<^verbatim>\<open>createArtifact\<close> is answered with.
\<close>

theorem rest_failure_by_status:
  assumes "body_task_id body = Inr t"
    and "body_run_id body = Inr r"
    and "claim = EClaimTask t r (worker_type s) (worker_type s)"
  shows "(\<forall>out s1 pre ev post.
            try_block w body s = (out, s1) \<and> trace s1 = trace s @ pre @ ev # post
            \<and> tc_failure w (trace s @ pre) ev = Some (TaskclusterRestFailure c) \<longrightarrow>
            post = [] \<and> process_message w body s = by_status c s1)
     \<and> (tc_claimTask w (trace s) t r (worker_type s) (worker_type s)
            = Inl (TaskclusterRestFailure c) \<longrightarrow>
          process_message w body s = by_status c (s\<lparr>trace := trace s @ [claim]\<rparr>))
     \<and> (tc_claimTask w (trace s) t r (worker_type s) (worker_type s) = Inr ()
          \<and> tc_task w (trace s @ [claim]) t = Inl (TaskclusterRestFailure c) \<longrightarrow>
          process_message w body s = by_status c (s\<lparr>trace := trace s @ [claim, ETask t]\<rparr>))
     \<and> (\<forall>task group_id s4.
            tc_claimTask w (trace s) t r (worker_type s) (worker_type s) = Inr ()
            \<and> tc_task w (trace s @ [claim]) t = Inr task
            \<and> getitem task ''taskGroupId'' = Inr group_id
            \<and> validate_task w task (supported_signing_scopes s) = Inr ()
            \<and> sign w t r task (s\<lparr>trace := trace s @ [claim, ETask t, EValidateTask task]\<rparr>)
                = (Inr (), s4)
            \<and> tc_reportCompleted w (trace s4) t r = Inl (TaskclusterRestFailure c) \<longrightarrow>
            process_message w body s
              = by_status c (s4\<lparr>trace := trace s4 @ [EReportCompleted t r]\<rparr>))
     \<and> (\<forall>s' dest f content_type e.
            tc_createArtifact w (trace s') t r dest content_type (now_plus_2_weeks w (trace s'))
              = Inl e \<longrightarrow>
            create_artifact w t r dest f (Some content_type) s' =
              (Inl e, s'\<lparr>trace := trace s' @ [ECreateArtifact t r dest content_type
                                                  (now_plus_2_weeks w (trace s'))]\<rparr>))"
proof (intro conjI allI impI)
  fix out and s1 :: state and pre ev post
  assume a: "try_block w body s = (out, s1) \<and> trace s1 = trace s @ pre @ ev # post
            \<and> tc_failure w (trace s @ pre) ev = Some (TaskclusterRestFailure c)"
  then have "post = [] \<and> (\<exists>t r. out = Inl (TaskclusterRestFailure c, t, r))"
    by (intro try_block_transparent [of w body s out s1 pre ev post]) simp_all
  with a show "post = []" and "process_message w body s = by_status c s1"
    by (auto intro: process_message_by_status)
next
  assume "tc_claimTask w (trace s) t r (worker_type s) (worker_type s)
            = Inl (TaskclusterRestFailure c)"
  then have "claim_and_run w t r s
      = (Inl (TaskclusterRestFailure c), s\<lparr>trace := trace s @ [claim]\<rparr>)"
    unfolding assms(3) by (simp add: claim_and_run_def with_self_def bindM_def effect_def)
  then have "try_block w body s
      = (Inl (TaskclusterRestFailure c, t, r), s\<lparr>trace := trace s @ [claim]\<rparr>)"
    using assms(1,2) by (simp add: try_block_def)
  then show "process_message w body s = by_status c (s\<lparr>trace := trace s @ [claim]\<rparr>)"
    by (rule process_message_by_status)
next
  assume "tc_claimTask w (trace s) t r (worker_type s) (worker_type s) = Inr ()
          \<and> tc_task w (trace s @ [claim]) t = Inl (TaskclusterRestFailure c)"
  then have "claim_and_run w t r s
      = (Inl (TaskclusterRestFailure c), s\<lparr>trace := trace s @ [claim, ETask t]\<rparr>)"
    unfolding assms(3) by (simp add: claim_and_run_def with_self_def bindM_def effect_def)
  then have "try_block w body s
      = (Inl (TaskclusterRestFailure c, t, r), s\<lparr>trace := trace s @ [claim, ETask t]\<rparr>)"
    using assms(1,2) by (simp add: try_block_def)
  then show "process_message w body s
      = by_status c (s\<lparr>trace := trace s @ [claim, ETask t]\<rparr>)"
    by (rule process_message_by_status)
next
  fix task group_id and s4 :: state
  assume a: "tc_claimTask w (trace s) t r (worker_type s) (worker_type s) = Inr ()
            \<and> tc_task w (trace s @ [claim]) t = Inr task
            \<and> getitem task ''taskGroupId'' = Inr group_id
            \<and> validate_task w task (supported_signing_scopes s) = Inr ()
            \<and> sign w t r task (s\<lparr>trace := trace s @ [claim, ETask t, EValidateTask task]\<rparr>)
                = (Inr (), s4)
            \<and> tc_reportCompleted w (trace s4) t r = Inl (TaskclusterRestFailure c)"
  then have "claim_and_run w t r s
      = (Inl (TaskclusterRestFailure c), s4\<lparr>trace := trace s4 @ [EReportCompleted t r]\<rparr>)"
    unfolding assms(3)
    by (simp add: claim_and_run_def with_self_def bindM_def effect_def liftE_def)
  then have "try_block w body s = (Inl (TaskclusterRestFailure c, t, r),
      s4\<lparr>trace := trace s4 @ [EReportCompleted t r]\<rparr>)"
    using assms(1,2) by (simp add: try_block_def)
  then show "process_message w body s
      = by_status c (s4\<lparr>trace := trace s4 @ [EReportCompleted t r]\<rparr>)"
    by (rule process_message_by_status)
next
  fix s' :: state and dest f content_type e
  assume "tc_createArtifact w (trace s') t r dest content_type (now_plus_2_weeks w (trace s'))
              = Inl e"
  then show "create_artifact w t r dest f (Some content_type) s' =
      (Inl e, s'\<lparr>trace := trace s' @ [ECreateArtifact t r dest content_type
                                          (now_plus_2_weeks w (trace s'))]\<rparr>)"
    by (simp add: create_artifact_def bindM_def effect_def observe_def)
qed

theorem rest_failure_by_status_witness:
  "last (trace (snd (try_block artifact_conflict_world body1 state1))) =
     ECreateArtifact (JStr ''t'') (JNum 0) ''public/env/a.mar'' ''application/octet-stream''
       ''later''
   \<and> tc_failure artifact_conflict_world
        (trace state1 @ butlast (trace (snd (try_block artifact_conflict_world body1 state1))))
        (last (trace (snd (try_block artifact_conflict_world body1 state1))))
       = Some (TaskclusterRestFailure 409)
   \<and> process_message artifact_conflict_world body1 state1 =
       (Inr (), (snd (try_block artifact_conflict_world body1 state1))
                  \<lparr>trace := trace (snd (try_block artifact_conflict_world body1 state1))
                             @ [EAck]\<rparr>)
   \<and> tc_reportCompleted completed_conflict_world
        (trace (snd (sign completed_conflict_world (JStr ''t'') (JNum 0) task1
           (state1\<lparr>trace := [EClaimTask (JStr ''t'') (JNum 0) ''signing-worker-v1''
                                ''signing-worker-v1'',
                              ETask (JStr ''t''), EValidateTask task1]\<rparr>))))
        (JStr ''t'') (JNum 0) = Inl (TaskclusterRestFailure 409)
   \<and> fst (process_message completed_conflict_world body1 state1) = Inr ()
   \<and> last (trace (snd (process_message completed_conflict_world body1 state1))) = EAck
   \<and> process_message outage_world body1 state1 =
       (Inl (TaskclusterRestFailure 500),
        state1\<lparr>trace := [EClaimTask (JStr ''t'') (JNum 0) ''signing-worker-v1''
                            ''signing-worker-v1'']\<rparr>)"
proof -
  let ?claim = "EClaimTask (JStr ''t'') (JNum 0) (worker_type state1) (worker_type state1)"
  have ids: "body_task_id body1 = Inr (JStr ''t'')" "body_run_id body1 = Inr (JNum 0)"
    by (simp_all add: body_task_id_def body_run_id_def body1_def bind_sum_def)
  have st: "trace state1 = []" "worker_type state1 = ''signing-worker-v1''"
    by (simp_all add: state1_def init_def)
  text \<open>The upload of the signed file fails with 409.\<close>
  let ?w = artifact_conflict_world
  let ?tb = "try_block ?w body1 state1"
  let ?s1 = "snd ?tb"
  have a1: "?tb = (fst ?tb, ?s1)"
    by simp
  have a2: "trace ?s1 \<noteq> []"
    by code_simp
  then have a3: "trace ?s1 = trace state1 @ butlast (trace ?s1) @ last (trace ?s1) # []"
    by (simp add: st)
  have a4: "tc_failure ?w (trace state1 @ butlast (trace ?s1)) (last (trace ?s1))
      = Some (TaskclusterRestFailure 409)"
    by code_simp
  have a5: "last (trace ?s1) = ECreateArtifact (JStr ''t'') (JNum 0) ''public/env/a.mar''
      ''application/octet-stream'' ''later''"
    by code_simp
  from rest_failure_by_status [where s = state1 and w = ?w and c = 409, OF ids refl]
  have "\<forall>out s1 pre ev post.
      ?tb = (out, s1) \<and> trace s1 = trace state1 @ pre @ ev # post
      \<and> tc_failure ?w (trace state1 @ pre) ev = Some (TaskclusterRestFailure 409) \<longrightarrow>
      post = [] \<and> process_message ?w body1 state1 = by_status 409 s1"
    by (rule conjunct1)
  with a1 a3 a4 have A: "process_message ?w body1 state1 = by_status 409 ?s1"
    by blast
  text \<open>The completion report fails with 409.\<close>
  let ?v = completed_conflict_world
  let ?s3 = "state1\<lparr>trace := trace state1 @ [?claim, ETask (JStr ''t''), EValidateTask task1]\<rparr>"
  let ?s4 = "snd (sign ?v (JStr ''t'') (JNum 0) task1 ?s3)"
  have b1: "tc_claimTask ?v (trace state1) (JStr ''t'') (JNum 0) (worker_type state1)
      (worker_type state1) = Inr ()"
    by (simp add: completed_conflict_world_def calm_world_def)
  have b2: "tc_task ?v (trace state1 @ [?claim]) (JStr ''t'') = Inr task1"
    by (simp add: completed_conflict_world_def calm_world_def)
  have b3: "getitem task1 ''taskGroupId'' = Inr (JStr ''g'')"
    by (simp add: task1_def)
  have b4: "validate_task ?v task1 (supported_signing_scopes state1) = Inr ()"
    by (simp add: completed_conflict_world_def calm_world_def)
  have "fst (sign ?v (JStr ''t'') (JNum 0) task1 ?s3) = Inr ()"
    by code_simp
  then have b5: "sign ?v (JStr ''t'') (JNum 0) task1 ?s3 = (Inr (), ?s4)"
    by (metis prod.collapse)
  have b6: "tc_reportCompleted ?v h (JStr ''t'') (JNum 0) = Inl (TaskclusterRestFailure 409)"
    for h
    by (simp add: completed_conflict_world_def)
  from rest_failure_by_status [where s = state1 and w = ?v and c = 409, OF ids refl] b1 b2 b3 b4 b5 b6
  have B: "process_message ?v body1 state1
      = by_status 409 (?s4\<lparr>trace := trace ?s4 @ [EReportCompleted (JStr ''t'') (JNum 0)]\<rparr>)"
    by blast
  text \<open>The claim call fails with 500.\<close>
  have c1: "tc_claimTask outage_world (trace state1) (JStr ''t'') (JNum 0) (worker_type state1)
      (worker_type state1) = Inl (TaskclusterRestFailure 500)"
    by (simp add: outage_world_def)
  from rest_failure_by_status [where s = state1 and w = outage_world and c = 500, OF ids refl] c1
  have C: "process_message outage_world body1 state1
      = by_status 500 (state1\<lparr>trace := trace state1 @ [?claim]\<rparr>)"
    by blast
  show ?thesis
    using A B C a4 a5 b6 st by (simp add: by_status_def)
qed

text \<open>
  C10 as stated covers every call made while the message is processed. The report of a
  validation error is made by the handler, outside the \<^verbatim>\<open>try\<close> block: when that call
  fails with status 409, the failure leaves the method and the message is not
  acknowledged.
\<close>

theorem report_conflict_counterexample:
  "process_message resolved_world body1 state1 =
     (Inl (TaskclusterRestFailure 409),
      state1\<lparr>trace := [EClaimTask (JStr ''t'') (JNum 0) ''signing-worker-v1''
                          ''signing-worker-v1'',
                        ETask (JStr ''t''), EValidateTask task1,
                        EReportException (JStr ''t'') (JNum 0) ''malformed-payload'']\<rparr>)"
  by (simp add: process_message_def try_block_def body_task_id_def body_run_id_def body1_def
        bind_sum_def claim_and_run_def with_self_def bindM_def effect_def liftE_def
        resolved_world_def bad_scope_world_def calm_world_def task1_def
        state1_def init_def)

subsection \<open>A task that fails validation\<close>

text \<open>
  C6. When the task is claimed and fetched and its validation raises a task-verification
  or a schema-validation error, the worker reports an exception with the reason
  \<open>malformed-payload\<close> for this task and run, and attempts no signing work: the claim, the
  fetch, the validation and the report are the only calls made, followed by the
  acknowledgement when the report went through.
\<close>

theorem malformed_payload_reported:
  assumes "body_task_id body = Inr t"
    and "body_run_id body = Inr r"
    and "claim = EClaimTask t r (worker_type s) (worker_type s)"
    and "tc_claimTask w (trace s) t r (worker_type s) (worker_type s) = Inr ()"
    and "tc_task w (trace s @ [claim]) t = Inr task"
    and "getitem task ''taskGroupId'' = Inr group_id"
    and "validate_task w task (supported_signing_scopes s) = Inl e"
    and "e = TaskVerificationError \<or> e = ValidationError"
    and "calls = [claim, ETask t, EValidateTask task, EReportException t r ''malformed-payload'']"
    and "report = tc_reportException w (trace s @ [claim, ETask t, EValidateTask task]) t r
                    ''malformed-payload''"
  shows "process_message w body s =
           (report, s\<lparr>trace := trace s @ calls @ (case report of Inl x \<Rightarrow> [] | Inr u \<Rightarrow> [EAck])\<rparr>)"
proof -
  have "claim_and_run w t r s =
          (Inl e, s\<lparr>trace := trace s @ [claim, ETask t, EValidateTask task]\<rparr>)"
    using assms(3-7)
    by (simp add: claim_and_run_def with_self_def bindM_def effect_def liftE_def)
  then have "try_block w body s =
          (Inl (e, t, r), s\<lparr>trace := trace s @ [claim, ETask t, EValidateTask task]\<rparr>)"
    using assms(1,2) by (simp add: try_block_def)
  then have run: "process_message w body s =
      bindM (handle_exception w t r e) (\<lambda>_. message_ack)
        (s\<lparr>trace := trace s @ [claim, ETask t, EValidateTask task]\<rparr>)"
    by (simp add: process_message_def)
  let ?answer = "tc_reportException w (trace s @ [claim, ETask t, EValidateTask task]) t r
                   ''malformed-payload''"
  show ?thesis
  proof (cases ?answer)
    case (Inl x)
    with run assms(8) show ?thesis
      unfolding assms(9,10) by (auto simp: bindM_def effect_def)
  next
    case (Inr u)
    with run assms(8) show ?thesis
      unfolding assms(9,10) by (auto simp: bindM_def effect_def message_ack_def)
  qed
qed

theorem malformed_payload_reported_witness:
  "process_message bad_scope_world body1 state1 =
     (Inr (), state1\<lparr>trace := [EClaimTask (JStr ''t'') (JNum 0) ''signing-worker-v1''
                                  ''signing-worker-v1'',
                                ETask (JStr ''t''), EValidateTask task1,
                                EReportException (JStr ''t'') (JNum 0) ''malformed-payload'',
                                EAck]\<rparr>)"
proof -
  let ?claim = "EClaimTask (JStr ''t'') (JNum 0) (worker_type state1) (worker_type state1)"
  have 1: "body_task_id body1 = Inr (JStr ''t'')"
    by (simp add: body_task_id_def body1_def bind_sum_def)
  have 2: "body_run_id body1 = Inr (JNum 0)"
    by (simp add: body_run_id_def body1_def bind_sum_def)
  have 4: "tc_claimTask bad_scope_world (trace state1) (JStr ''t'') (JNum 0)
             (worker_type state1) (worker_type state1) = Inr ()"
    by (simp add: bad_scope_world_def calm_world_def)
  have 5: "tc_task bad_scope_world (trace state1 @ [?claim]) (JStr ''t'') = Inr task1"
    by (simp add: bad_scope_world_def calm_world_def)
  have 6: "getitem task1 ''taskGroupId'' = Inr (JStr ''g'')"
    by (simp add: task1_def)
  have 7: "validate_task bad_scope_world task1 (supported_signing_scopes state1)
             = Inl TaskVerificationError"
    by (simp add: bad_scope_world_def)
  have 8: "tc_reportException bad_scope_world h (JStr ''t'') (JNum 0) ''malformed-payload''
             = Inr ()" for h
    by (simp add: bad_scope_world_def calm_world_def)
  have 9: "trace state1 = []" "worker_type state1 = ''signing-worker-v1''"
    by (simp_all add: state1_def init_def)
  show ?thesis
    using malformed_payload_reported [OF 1 2 refl 4 5 6 7 _ refl refl] 8 9 by simp
qed

subsection \<open>What the worker changes of its own configuration\<close>

text \<open>
  C9, as the code has it. Processing a message, and acquiring a token, add to the trace
  and may put the signing servers in another order; the servers are the same ones, and
  every other attribute set at startup is left as it was.
\<close>

theorem configuration_kept:
  "(\<exists>evs xs. snd (process_message w body s) = s\<lparr>trace := trace s @ evs, signing_servers := xs\<rparr>
        \<and> mset xs = mset (signing_servers s))
   \<and> (\<exists>evs xs. snd (get_token w out s) = s\<lparr>trace := trace s @ evs, signing_servers := xs\<rparr>
        \<and> mset xs = mset (signing_servers s))"
proof
  obtain evs where "extends s evs (snd (process_message w body s))"
    using only_process_message [of w body] unfolding only_def emits_def by blast
  then show "\<exists>evs xs. snd (process_message w body s)
        = s\<lparr>trace := trace s @ evs, signing_servers := xs\<rparr> \<and> mset xs = mset (signing_servers s)"
    unfolding extends_def by blast
next
  obtain evs where "extends s evs (snd (get_token w out s))"
    using only_get_token [of w out] unfolding only_def emits_def by blast
  then show "\<exists>evs xs. snd (get_token w out s)
        = s\<lparr>trace := trace s @ evs, signing_servers := xs\<rparr> \<and> mset xs = mset (signing_servers s)"
    unfolding extends_def by blast
qed

text \<open>
  C9 as stated says that the pool of signing servers is left unchanged. One token
  acquisition reorders it.
\<close>

theorem pool_reordered_counterexample:
  "signing_servers state1 = [''s1'', ''s2'', ''s3'']
   \<and> signing_servers (snd (get_token calm_world ''/tmp/d/token'' state1))
       = [''s2'', ''s3'', ''s1'']"
  by code_simp

subsection \<open>Acquiring a token\<close>

text \<open>
  C4, as the code has it. A pass shuffles the pool of signing servers in place and asks
  the servers in the new order. As long as the answers have a good status and an empty
  body, it goes on to the next server. When all the servers have answered so, it raises a
  signing-server error, after the whole list. An answer that fails, by an exception of
  the transport or by a bad status, ends the pass at once with that exception, the
  servers after it not being asked. An answer with a body ends the pass too: the body is
  written to the token file. \<^verbatim>\<open>get_token\<close> makes up to ten passes, each from the state the
  one before left: it returns with the first pass that returns, and what the tenth pass
  raises is raised to the caller.
\<close>

theorem token_acquisition:
  assumes "s1 = snd (shuffle_servers w s)"
    and "pool = signing_servers s1"
    and "k \<le> length pool"
    and "\<forall>j<k. empty_answer (token_answer w s1 pool j)"
    and "n < 10"
    and "\<forall>i<n. isl (fst (get_token_once w out (after_passes w out i s)))"
    and "n < 9 \<longrightarrow> \<not> isl (fst (get_token_once w out (after_passes w out n s)))"
  shows "trace s1 = trace s @ [EShuffle] \<and> mset pool = mset (signing_servers s)
     \<and> (k = length pool \<longrightarrow>
          get_token_once w out s =
            (Inl (SigningServerError ''Cannot retrieve signing token''),
             s1\<lparr>trace := trace s1 @ map ETokenRequest pool\<rparr>))
     \<and> (k < length pool \<longrightarrow>
          (\<forall>e. answer_error (token_answer w s1 pool k) = Some e \<longrightarrow>
             get_token_once w out s =
               (Inl e, s1\<lparr>trace := trace s1 @ map ETokenRequest (take (Suc k) pool)\<rparr>)))
     \<and> (k < length pool \<longrightarrow>
          (\<forall>r. token_answer w s1 pool k = Inr r \<and> raise_for_status r = Inr ()
                \<and> content r \<noteq> [] \<longrightarrow>
             get_token_once w out s =
               (write_file w (trace s1 @ map ETokenRequest (take (Suc k) pool)) out (content r),
                s1\<lparr>trace := trace s1 @ map ETokenRequest (take (Suc k) pool)
                                @ [EWriteFile out (content r)]\<rparr>)))
     \<and> get_token w out s = get_token_once w out (after_passes w out n s)"
proof (intro conjI impI allI)
  show "trace s1 = trace s @ [EShuffle]"
    unfolding assms(1) by (simp add: shuffle_servers_def)
  show "mset pool = mset (signing_servers s)"
    unfolding assms(1,2) by (simp add: shuffle_servers_def mset_random_shuffle)
  have skip: "\<forall>j<k. empty_answer (requests_post w (trace s1 @ map ETokenRequest (take j pool))
            (''https://'' @ pool ! j @ ''/token'') (my_ip w) (5 * 60) (signing_server_auth s1))"
    using assms(4) by (simp add: token_answer_def)
  note once = get_token_once_unfold [OF assms(1), of out, folded assms(2)]
  {
    assume k: "k = length pool"
    have "token_loop w (signing_server_auth s1) pool s1 =
        (Inr None, s1\<lparr>trace := trace s1 @ map ETokenRequest pool\<rparr>)"
      using token_loop_skip [OF assms(3) skip] k by (simp add: returnM_def)
    then show "get_token_once w out s =
        (Inl (SigningServerError ''Cannot retrieve signing token''),
         s1\<lparr>trace := trace s1 @ map ETokenRequest pool\<rparr>)"
      unfolding once by simp
  }
  {
    fix e
    assume k: "k < length pool"
      and e: "answer_error (token_answer w s1 pool k) = Some e"
    have "token_loop w (signing_server_auth s1) pool s1 =
        (Inl e, s1\<lparr>trace := trace s1 @ map ETokenRequest (take (Suc k) pool)\<rparr>)"
      using token_loop_stop [OF k skip refl refl] e
      by (auto simp: answer_error_def token_answer_def split: sum.splits)
    then show "get_token_once w out s =
        (Inl e, s1\<lparr>trace := trace s1 @ map ETokenRequest (take (Suc k) pool)\<rparr>)"
      unfolding once by simp
  }
  {
    fix r
    assume k: "k < length pool"
      and r: "token_answer w s1 pool k = Inr r \<and> raise_for_status r = Inr ()
                \<and> content r \<noteq> []"
    have "token_loop w (signing_server_auth s1) pool s1 =
        (Inr (Some (content r)),
         s1\<lparr>trace := trace s1 @ map ETokenRequest (take (Suc k) pool)\<rparr>)"
      using token_loop_stop [OF k skip refl refl] r
      by (auto simp: token_answer_def split: sum.splits)
    with r show "get_token_once w out s =
        (write_file w (trace s1 @ map ETokenRequest (take (Suc k) pool)) out (content r),
         s1\<lparr>trace := trace s1 @ map ETokenRequest (take (Suc k) pool)
                         @ [EWriteFile out (content r)]\<rparr>)"
      unfolding once by simp
  }
  show "get_token w out s = get_token_once w out (after_passes w out n s)"
    unfolding get_token_def retriable_def after_passes_def
    using assms(5-7)
    by (intro retry_rounds_run) (auto simp: after_passes_def)
qed

theorem token_acquisition_witness:
  "signing_servers (snd (shuffle_servers flaky_world state1)) = [''s2'', ''s3'', ''s1'']
   \<and> get_token_once flaky_world ''/tmp/d/token'' state1 =
       (Inl (SigningServerError ''Cannot retrieve signing token''),
        state1\<lparr>signing_servers := [''s2'', ''s3'', ''s1''],
               trace := [EShuffle, ETokenRequest ''s2'', ETokenRequest ''s3'',
                         ETokenRequest ''s1'']\<rparr>)
   \<and> get_token flaky_world ''/tmp/d/token'' state1 =
       get_token_once flaky_world ''/tmp/d/token''
         (after_passes flaky_world ''/tmp/d/token'' (Suc 0) state1)
   \<and> fst (get_token flaky_world ''/tmp/d/token'' state1) = Inr ()"
proof -
  let ?s1 = "snd (shuffle_servers flaky_world state1)"
  let ?pool = "signing_servers ?s1"
  have pool: "?pool = [''s2'', ''s3'', ''s1'']"
    by code_simp
  have s1: "?s1 = state1\<lparr>signing_servers := [''s2'', ''s3'', ''s1''], trace := [EShuffle]\<rparr>"
    by code_simp
  have 3: "3 \<le> length ?pool"
    unfolding pool by simp
  have 4: "\<forall>j<3. empty_answer (token_answer flaky_world ?s1 ?pool j)"
    unfolding s1
    by (simp add: empty_answer_def token_answer_def flaky_world_def ok_response_def
          raise_for_status_def filter_map o_def)
  have 5: "Suc 0 < 10"
    by simp
  have first: "isl (fst (get_token_once flaky_world ''/tmp/d/token'' state1))"
    by code_simp
  have 6: "\<forall>i<Suc 0. isl (fst (get_token_once flaky_world ''/tmp/d/token''
              (after_passes flaky_world ''/tmp/d/token'' i state1)))"
    using first by (simp add: after_passes_def)
  have second: "\<not> isl (fst (get_token_once flaky_world ''/tmp/d/token''
              (after_passes flaky_world ''/tmp/d/token'' (Suc 0) state1)))"
    by code_simp
  then have 7: "Suc 0 < 9 \<longrightarrow> \<not> isl (fst (get_token_once flaky_world ''/tmp/d/token''
              (after_passes flaky_world ''/tmp/d/token'' (Suc 0) state1)))"
    by simp
  have 8: "fst (get_token flaky_world ''/tmp/d/token'' state1) = Inr ()"
    by code_simp
  show ?thesis
    using token_acquisition [OF refl refl 3 4 5 6 7] pool s1 8 by simp
qed

text \<open>
  C4 as stated says that, when every server answers with an error, a signing-server error
  is raised once the whole list has been tried. With three servers that all answer with
  HTTP 500, each of the ten passes asks one server only, and what is raised is the HTTP
  error.
\<close>

theorem token_http_error_counterexample:
  "length (signing_servers state1) = 3
   \<and> fst (get_token down_world ''/tmp/d/token'' state1) = Inl (HTTPError 500)
   \<and> length (filter is_token_request
        (trace (snd (get_token down_world ''/tmp/d/token'' state1)))) = 10"
  by code_simp

end
